theory Spec2Isabelle
  imports Main
begin

section \<open>Strings and the two regular expressions of the comment parser\<close>

text \<open>
  A JavaScript string is a sequence of UTF-16 code units; a code unit is modelled by its
  number. \<open>js\<close> turns an ASCII literal into such a string.
\<close>

type_synonym jsstring = "nat list"

definition js :: "string \<Rightarrow> jsstring" where
  "js s = map of_char s"

text \<open>\<^verbatim>\<open>String.prototype.includes\<close>: the needle occurs at some position of the text.\<close>

fun starts_with :: "jsstring \<Rightarrow> jsstring \<Rightarrow> bool" where
  "starts_with s [] = True"
| "starts_with [] (y # ys) = False"
| "starts_with (x # xs) (y # ys) = (x = y \<and> starts_with xs ys)"

fun includes_str :: "jsstring \<Rightarrow> jsstring \<Rightarrow> bool" where
  "includes_str [] t = starts_with [] t"
| "includes_str (x # xs) t = (starts_with (x # xs) t \<or> includes_str xs t)"

text \<open>
  Both patterns carry the flag \<^verbatim>\<open>i\<close> and no flag \<^verbatim>\<open>u\<close>. Two code units then match when
  their canonical forms agree. Every literal and class member of the patterns is ASCII, and
  the canonical form of a code unit from 128 on is never ASCII, so only the folding of
  \<^verbatim>\<open>a\<close>..\<^verbatim>\<open>z\<close> onto \<^verbatim>\<open>A\<close>..\<^verbatim>\<open>Z\<close> matters here.
\<close>

definition canonicalize :: "nat \<Rightarrow> nat" where
  "canonicalize c = (if 97 \<le> c \<and> c \<le> 122 then c - 32 else c)"

text \<open>The class \<^verbatim>\<open>[0-9a-z-]\<close> (written \<^verbatim>\<open>[a-z0-9-]\<close> in the second pattern) under \<^verbatim>\<open>i\<close>.\<close>

definition tok :: "nat \<Rightarrow> bool" where
  "tok c = (let cc = canonicalize c in (48 \<le> cc \<and> cc \<le> 57) \<or> (65 \<le> cc \<and> cc \<le> 90) \<or> cc = 45)"

text \<open>\<^verbatim>\<open>.\<close> without the flag \<^verbatim>\<open>s\<close>: any code unit but LF, CR, U+2028 and U+2029.\<close>

definition line_terminator :: "nat \<Rightarrow> bool" where
  "line_terminator c = (c = 10 \<or> c = 13 \<or> c = 8232 \<or> c = 8233)"

text \<open>
  The pieces the two patterns are made of: a literal character, \<^verbatim>\<open>.\<close>, the greedy
  \<^verbatim>\<open>[0-9a-z-]+\<close>, and \<open>Mark\<close> for the opening and the closing parenthesis of a named group
  (it consumes nothing and records the position).
\<close>

datatype atom = Lit nat | Dot | TokPlus | Mark

definition lits :: "string \<Rightarrow> atom list" where
  "lits s = map (\<lambda>c. Lit (of_char c)) s"

text \<open>
  The backtracking matcher at one start position. The result holds the text that was left
  at each \<open>Mark\<close>, in order, and the text left after the match. \<open>TokPlus\<close> is greedy: it
  takes one class member, then prefers to take more, and falls back to the rest of the
  pattern only when that fails.
\<close>

fun match_atoms :: "atom list \<Rightarrow> jsstring \<Rightarrow> (jsstring list \<times> jsstring) option" where
  "match_atoms [] s = Some ([], s)"
| "match_atoms (Mark # as) s =
     (case match_atoms as s of None \<Rightarrow> None | Some (ms, r) \<Rightarrow> Some (s # ms, r))"
| "match_atoms (Lit c # as) [] = None"
| "match_atoms (Lit c # as) (x # xs) =
     (if canonicalize c = canonicalize x then match_atoms as xs else None)"
| "match_atoms (Dot # as) [] = None"
| "match_atoms (Dot # as) (x # xs) =
     (if line_terminator x then None else match_atoms as xs)"
| "match_atoms (TokPlus # as) [] = None"
| "match_atoms (TokPlus # as) (x # xs) =
     (if tok x
      then (case match_atoms (TokPlus # as) xs of
              Some r \<Rightarrow> Some r
            | None \<Rightarrow> match_atoms as xs)
      else None)"

text \<open>\<^verbatim>\<open>String.prototype.match\<close> without the flag \<^verbatim>\<open>g\<close>: the leftmost start position wins.\<close>

fun search :: "atom list \<Rightarrow> jsstring \<Rightarrow> (jsstring list \<times> jsstring) option" where
  "search p [] = match_atoms p []"
| "search p (x # xs) =
     (case match_atoms p (x # xs) of Some r \<Rightarrow> Some r | None \<Rightarrow> search p xs)"

text \<open>The text of the \<open>k\<close>-th group: what lies between its two marks.\<close>

definition between :: "jsstring \<Rightarrow> jsstring \<Rightarrow> jsstring" where
  "between m1 m2 = take (length m1 - length m2) m1"

definition group_of :: "(jsstring list \<times> jsstring) option \<Rightarrow> nat \<Rightarrow> jsstring option" where
  "group_of r k =
     (case r of
        None \<Rightarrow> None
      | Some (ms, _) \<Rightarrow>
          if 2 * k + 1 < length ms then Some (between (ms ! (2 * k)) (ms ! (2 * k + 1)))
          else None)"

text \<open>
  \<^verbatim>\<open>/PR Server URL is (?<serverUrl>https:\/\/api-pr-[0-9a-z-]+.onrender.com)/i\<close>; the two
  dots are not escaped in the source and stand for any character.
\<close>

definition server_pattern :: "atom list" where
  "server_pattern =
     lits ''PR Server URL is '' @ [Mark] @ lits ''https://api-pr-'' @ [TokPlus, Dot]
     @ lits ''onrender'' @ [Dot] @ lits ''com'' @ [Mark]"

text \<open>
  \<^verbatim>\<open>/https:\/\/dashboard.render.com\/(?<serviceName>[a-z0-9-]+)\/(?<serviceId>[a-z0-9-]+)/i\<close>
\<close>

definition dashboard_pattern :: "atom list" where
  "dashboard_pattern =
     lits ''https://dashboard'' @ [Dot] @ lits ''render'' @ [Dot] @ lits ''com/''
     @ [Mark, TokPlus, Mark] @ lits ''/'' @ [Mark, TokPlus, Mark]"

section \<open>The comment parser\<close>

datatype error = Err jsstring

record ServiceIdentity =
  serverUrl :: jsstring
  serviceName :: jsstring
  serviceId :: jsstring
  dashboardUrl :: jsstring

text \<open>
  \<open>parseCommentBody\<close>, the same in both variants of \<^verbatim>\<open>main.ts\<close>. \<^verbatim>\<open>!x\<close> holds for an
  undefined group and for the empty string; a thrown \<^verbatim>\<open>Error\<close> is the left summand.
\<close>

definition parseCommentBody :: "jsstring \<Rightarrow> error + ServiceIdentity" where
  "parseCommentBody commentBody =
     (case group_of (search server_pattern commentBody) 0 of
        None \<Rightarrow> Inl (Err (js ''No server URL found''))
      | Some serverUrl' \<Rightarrow>
          if serverUrl' = [] then Inl (Err (js ''No server URL found''))
          else
            (case group_of (search dashboard_pattern commentBody) 0 of
               None \<Rightarrow> Inl (Err (js ''No service name found''))
             | Some serviceName' \<Rightarrow>
                 if serviceName' = [] then Inl (Err (js ''No service name found''))
                 else
                   (case group_of (search dashboard_pattern commentBody) 1 of
                      None \<Rightarrow> Inl (Err (js ''No service ID found''))
                    | Some serviceId' \<Rightarrow>
                        if serviceId' = [] then Inl (Err (js ''No service ID found''))
                        else Inr \<lparr>serverUrl = serverUrl',
                                  serviceName = serviceName',
                                  serviceId = serviceId',
                                  dashboardUrl = js ''https://dashboard.render.com/''
                                    @ serviceName' @ js ''/'' @ serviceId'\<rparr>)))"

section \<open>Data of the provider and of the platform\<close>

text \<open>
  \<^verbatim>\<open>interface Deploy\<close> and \<^verbatim>\<open>interface Data\<close>, with the fields the action reads. \<open>status\<close> is
  the string the provider sends (the interface names three values, the provider sends others
  while a deploy is in progress). \<open>createdAt\<close> holds the number that
  \<^verbatim>\<open>new Date(createdAt).getTime()\<close> yields for the timestamp.
\<close>

record Deploy =
  deploy_id :: jsstring
  commit_id :: jsstring
  status :: jsstring
  createdAt :: int

record Data =
  deploy :: Deploy
  cursor :: jsstring

text \<open>The state of a commit status or of a deployment status, and the name it is sent under.\<close>

datatype gh_state = Pending | Success | Failure | Error | Inactive

fun state_name :: "gh_state \<Rightarrow> jsstring" where
  "state_name Pending = js ''pending''"
| "state_name Success = js ''success''"
| "state_name Failure = js ''failure''"
| "state_name Error = js ''error''"
| "state_name Inactive = js ''inactive''"

text \<open>The arguments of \<^verbatim>\<open>createCommitStatus\<close> (beside the repository, which never changes).\<close>

record commit_status =
  cs_sha :: jsstring
  cs_state :: gh_state
  cs_target_url :: jsstring
  cs_description :: "jsstring option"
  cs_context :: jsstring

text \<open>The arguments of \<^verbatim>\<open>createDeployment\<close> and of \<^verbatim>\<open>createDeploymentStatus\<close>.\<close>

record deployment =
  dp_ref :: jsstring
  dp_environment :: jsstring
  dp_description :: jsstring
  dp_transient_environment :: bool
  dp_auto_merge :: bool

record deployment_status =
  ds_deployment_id :: nat
  ds_state :: gh_state
  ds_log_url :: "jsstring option"
  ds_environment_url :: "jsstring option"
  ds_description :: "jsstring option"

text \<open>
  What an invocation does to the outside, in the order it does it: outputs and the failure
  signal of the host, requests to the provider, records written to the platform, and calls of
  \<^verbatim>\<open>wait\<close>. The \<^verbatim>\<open>core.debug\<close> lines are diagnostics and are left out.
\<close>

datatype event =
    SetOutput jsstring jsstring
  | SetFailed jsstring
  | GetDeploys jsstring
  | GetDeploy jsstring
  | CreateCommitStatus commit_status
  | CreateDeployment deployment
  | CreateDeploymentStatus deployment_status
  | Wait int

text \<open>
  What an invocation is given. \<open>input_max_attempts\<close> and \<open>input_interval\<close> are \<open>None\<close> for an
  empty input and otherwise hold the value of \<^verbatim>\<open>Number(core.getInput(...))\<close>. The answers of
  the provider and of the platform are part of the environment: the answer to the listing, the
  status the \<open>k\<close>-th request for the observed deploy returns, and the answer to the \<open>k\<close>-th
  \<^verbatim>\<open>createCommitStatus\<close>, to \<^verbatim>\<open>createDeployment\<close> (the id, if the answer has one) and to the
  \<open>k\<close>-th \<^verbatim>\<open>createDeploymentStatus\<close>. A left summand is a request that throws.
\<close>

record env =
  input_max_attempts :: "int option"
  input_interval :: "int option"
  comment_body :: "jsstring option"
  sha :: jsstring
  pull_request_head_sha :: "jsstring option"
  render_deploys :: "error + Data list"
  render_deploy :: "nat \<Rightarrow> error + jsstring"
  create_commit_status :: "nat \<Rightarrow> error + nat"
  create_deployment :: "error + nat option"
  create_deployment_status :: "nat \<Rightarrow> error + unit"

text \<open>How an invocation leaves the body of \<open>run\<close>: through which \<^verbatim>\<open>return\<close>, or by a throw.\<close>

datatype exit = Skipped | Exceeded | Succeeded | Failed | Loop_ended | Thrown error

fun is_GetDeploy :: "event \<Rightarrow> bool" where
  "is_GetDeploy (GetDeploy u) = True"
| "is_GetDeploy _ = False"

fun is_CreateCommitStatus :: "event \<Rightarrow> bool" where
  "is_CreateCommitStatus (CreateCommitStatus r) = True"
| "is_CreateCommitStatus _ = False"

fun is_CreateDeploymentStatus :: "event \<Rightarrow> bool" where
  "is_CreateDeploymentStatus (CreateDeploymentStatus r) = True"
| "is_CreateDeploymentStatus _ = False"

definition calls :: "(event \<Rightarrow> bool) \<Rightarrow> event list \<Rightarrow> nat" where
  "calls P tr = length (filter P tr)"

text \<open>The requests: each is recorded, and answered from the environment.\<close>

definition render_get_deploy :: "env \<Rightarrow> jsstring \<Rightarrow> event list \<Rightarrow> (error + jsstring) \<times> event list" where
  "render_get_deploy e url tr = (render_deploy e (calls is_GetDeploy tr), tr @ [GetDeploy url])"

definition createCommitStatus :: "env \<Rightarrow> commit_status \<Rightarrow> event list \<Rightarrow> (error + nat) \<times> event list" where
  "createCommitStatus e r tr =
     (create_commit_status e (calls is_CreateCommitStatus tr), tr @ [CreateCommitStatus r])"

definition createDeploymentStatus ::
    "env \<Rightarrow> deployment_status \<Rightarrow> event list \<Rightarrow> (error + unit) \<times> event list" where
  "createDeploymentStatus e r tr =
     (create_deployment_status e (calls is_CreateDeploymentStatus tr),
      tr @ [CreateDeploymentStatus r])"

text \<open>\<^verbatim>\<open>toString\<close> of a non-negative integer: its decimal digits.\<close>

fun toString :: "nat \<Rightarrow> jsstring" where
  "toString n = (if n < 10 then [48 + n] else toString (n div 10) @ [48 + n mod 10])"

text \<open>
  \<^verbatim>\<open>data.sort((a, b) => new Date(b.deploy.createdAt).getTime() - new Date(a.deploy.createdAt).getTime())[0]\<close>:
  the list in descending order of \<open>createdAt\<close>, entries of equal time in the order they came
  (the sort is stable), and then its first entry. The caller has checked that the list
  is not empty.
\<close>

definition sort_deploys :: "Data list \<Rightarrow> Data list" where
  "sort_deploys data = sort_key (\<lambda>a. - createdAt (deploy a)) data"

definition most_recent :: "Data list \<Rightarrow> Deploy" where
  "most_recent data = deploy (hd (sort_deploys data))"

section \<open>The commit-status variant of \<open>run\<close>\<close>

text \<open>
  The variant of \<^verbatim>\<open>main.ts\<close> that reads the inputs \<^verbatim>\<open>max-attempts\<close> and \<^verbatim>\<open>interval\<close> and
  reports through \<^verbatim>\<open>createCommitStatus\<close>.
\<close>

definition max_attempts :: "env \<Rightarrow> int" where
  "max_attempts e = (case input_max_attempts e of Some n \<Rightarrow> n | None \<Rightarrow> 100)"

definition interval :: "env \<Rightarrow> int" where
  "interval e = (case input_interval e of Some n \<Rightarrow> n | None \<Rightarrow> 10000)"

text \<open>\<^verbatim>\<open>`Render \<dots> ${serviceName} \<dots> ${deploy.id}`\<close>, the separators being en dashes (U+2013).\<close>

definition status_context :: "ServiceIdentity \<Rightarrow> Deploy \<Rightarrow> jsstring" where
  "status_context i d =
     js ''Render '' @ [8211] @ js '' '' @ serviceName i @ js '' '' @ [8211] @ js '' ''
     @ deploy_id d"

definition deploy_url :: "ServiceIdentity \<Rightarrow> Deploy \<Rightarrow> jsstring" where
  "deploy_url i d = js ''/services/'' @ serviceId i @ js ''/deploys/'' @ deploy_id d"

text \<open>The three assignments after the request, in the order of the source.\<close>

definition map_status :: "gh_state \<Rightarrow> jsstring \<Rightarrow> gh_state" where
  "map_status status0 deployStatus =
     (let status1 = (if deployStatus = js ''live'' then Success else status0);
          status2 = (if deployStatus = js ''build_failed'' then Failure else status1);
          status3 = (if deployStatus = js ''deactivated'' then Error else status2)
      in status3)"

text \<open>The records the variant writes: before the loop, on an exceeded budget, in each
  iteration, and after a success or a failure.\<close>

definition initial_status :: "env \<Rightarrow> ServiceIdentity \<Rightarrow> Deploy \<Rightarrow> commit_status" where
  "initial_status e i d =
     \<lparr>cs_sha = sha e, cs_state = Pending, cs_target_url = dashboardUrl i,
      cs_description = Some (js ''Preview deployment on Render''),
      cs_context = status_context i d\<rparr>"

definition exceeded_status :: "env \<Rightarrow> ServiceIdentity \<Rightarrow> Deploy \<Rightarrow> commit_status" where
  "exceeded_status e i d =
     \<lparr>cs_sha = sha e, cs_state = Failure, cs_target_url = dashboardUrl i,
      cs_description = Some (js ''Exceeded max number of attempts''),
      cs_context = status_context i d\<rparr>"

definition iteration_status ::
    "env \<Rightarrow> ServiceIdentity \<Rightarrow> Deploy \<Rightarrow> gh_state \<Rightarrow> jsstring \<Rightarrow> commit_status" where
  "iteration_status e i d st deployStatus =
     \<lparr>cs_sha = sha e, cs_state = st,
      cs_target_url = (if status d = js ''live'' then serverUrl i else dashboardUrl i),
      cs_description = (if deployStatus = js ''build_failed'' then Some (js ''Build failed'') else None),
      cs_context = status_context i d\<rparr>"

definition succeeded_status :: "env \<Rightarrow> ServiceIdentity \<Rightarrow> Deploy \<Rightarrow> commit_status" where
  "succeeded_status e i d =
     \<lparr>cs_sha = sha e, cs_state = Success, cs_target_url = dashboardUrl i,
      cs_description = Some (js ''Deploy succeeded''),
      cs_context = status_context i d\<rparr>"

definition failed_status :: "env \<Rightarrow> ServiceIdentity \<Rightarrow> Deploy \<Rightarrow> commit_status" where
  "failed_status e i d =
     \<lparr>cs_sha = sha e, cs_state = Failure, cs_target_url = dashboardUrl i,
      cs_description = Some (js ''Deploy failed''),
      cs_context = status_context i d\<rparr>"

text \<open>
  The loop \<^verbatim>\<open>while (status === 'pending')\<close>. An iteration starts with \<open>status\<close> at
  \<open>Pending\<close>, so only \<open>attempts\<close> and what has been done so far are carried along. The call
  \<^verbatim>\<open>wait(...)\<close> is not awaited in the source: it is recorded, and the loop goes on.
\<close>

function loop_commit_status ::
    "env \<Rightarrow> ServiceIdentity \<Rightarrow> Deploy \<Rightarrow> nat \<Rightarrow> event list \<Rightarrow> exit \<times> event list" where
  "loop_commit_status e i d attempts tr =
     (if int attempts > max_attempts e then
        (case createCommitStatus e (exceeded_status e i d) tr of
           (Inl err, tr1) \<Rightarrow> (Thrown err, tr1)
         | (Inr _, tr1) \<Rightarrow> (Exceeded, tr1))
      else
        (case render_get_deploy e (deploy_url i d) tr of
           (Inl err, tr1) \<Rightarrow> (Thrown err, tr1)
         | (Inr deployStatus, tr1) \<Rightarrow>
             (case createCommitStatus e
                     (iteration_status e i d (map_status Pending deployStatus) deployStatus) tr1 of
                (Inl err, tr2) \<Rightarrow> (Thrown err, tr2)
              | (Inr _, tr2) \<Rightarrow>
                  if map_status Pending deployStatus = Pending then
                    loop_commit_status e i d (attempts + 1) (tr2 @ [Wait (interval e)])
                  else if map_status Pending deployStatus = Success then
                    (case createCommitStatus e (succeeded_status e i d) tr2 of
                       (Inl err, tr3) \<Rightarrow> (Thrown err, tr3)
                     | (Inr _, tr3) \<Rightarrow>
                         (Succeeded, tr3 @ [SetOutput (state_name Success) (js ''success'')]))
                  else if map_status Pending deployStatus = Failure then
                    (case createCommitStatus e (failed_status e i d) tr2 of
                       (Inl err, tr3) \<Rightarrow> (Thrown err, tr3)
                     | (Inr _, tr3) \<Rightarrow>
                         (Failed, tr3 @ [SetOutput (state_name Failure) (js ''failure'')]))
                  else (Loop_ended, tr2))))"
  by pat_completeness auto
termination
  by (relation "measure (\<lambda>(e, i, d, attempts, tr). nat (max_attempts e + 1 - int attempts))") auto

declare loop_commit_status.simps [simp del]
declare toString.simps [simp del]

text \<open>
  The body of \<^verbatim>\<open>try\<close>: the comment, the filter on the marker phrase, the parser and the
  four outputs, the listing and the choice of the deploy, the first commit status, and the loop
  with \<open>attempts\<close> at 0.
\<close>

definition marker :: jsstring where
  "marker = js ''Your [Render](https://render.com) PR Server URL is''"

definition identity_outputs :: "ServiceIdentity \<Rightarrow> event list" where
  "identity_outputs i =
     [SetOutput (js ''server-url'') (serverUrl i),
      SetOutput (js ''service-name'') (serviceName i),
      SetOutput (js ''service-id'') (serviceId i),
      SetOutput (js ''dashboard-url'') (dashboardUrl i)]"

definition deploys_url :: "ServiceIdentity \<Rightarrow> jsstring" where
  "deploys_url i = js ''/services/'' @ serviceId i @ js ''/deploys?limit=20''"

definition run_commit_status_body :: "env \<Rightarrow> exit \<times> event list" where
  "run_commit_status_body e =
     (case comment_body e of
        None \<Rightarrow> (Thrown (Err (js ''No comment body found'')), [])
      | Some commentBody \<Rightarrow>
          if commentBody = [] then (Thrown (Err (js ''No comment body found'')), [])
          else if \<not> includes_str commentBody marker then (Skipped, [])
          else
            (case parseCommentBody commentBody of
               Inl err \<Rightarrow> (Thrown err, [])
             | Inr i \<Rightarrow>
                 (let tr = identity_outputs i @ [GetDeploys (deploys_url i)] in
                  case render_deploys e of
                    Inl err \<Rightarrow> (Thrown err, tr)
                  | Inr data \<Rightarrow>
                      if data = [] then (Thrown (Err (js ''No deploys found'')), tr)
                      else
                        (let d = most_recent data in
                         case createCommitStatus e (initial_status e i d) tr of
                           (Inl err, tr1) \<Rightarrow> (Thrown err, tr1)
                         | (Inr commitStatus_id, tr1) \<Rightarrow>
                             loop_commit_status e i d 0
                               (tr1 @ [SetOutput (js ''status-id'') (toString commitStatus_id)])))))"

text \<open>\<^verbatim>\<open>catch (error) { if (error instanceof Error) core.setFailed(error.message) }\<close>\<close>

definition catch :: "exit \<times> event list \<Rightarrow> event list" where
  "catch r = (case r of (Thrown (Err message), tr) \<Rightarrow> tr @ [SetFailed message] | (_, tr) \<Rightarrow> tr)"

definition run_commit_status :: "env \<Rightarrow> event list" where
  "run_commit_status e = catch (run_commit_status_body e)"

section \<open>The deployment variant of \<open>run\<close>\<close>

text \<open>
  \<^verbatim>\<open>src/main.ts\<close>: the same parser, filter and listing; the reports go through
  \<^verbatim>\<open>createDeployment\<close> and \<^verbatim>\<open>createDeploymentStatus\<close>, the budget is the constant 100 and the
  argument of \<^verbatim>\<open>wait\<close> the constant 5000.
\<close>

definition map_status_deployment :: "gh_state \<Rightarrow> jsstring \<Rightarrow> gh_state" where
  "map_status_deployment status0 deployStatus =
     (let status1 = (if deployStatus = js ''live'' then Success else status0);
          status2 = (if deployStatus = js ''build_failed'' then Failure else status1);
          status3 = (if deployStatus = js ''deactivated'' then Inactive else status2)
      in status3)"

definition preview_deployment :: "env \<Rightarrow> Deploy \<Rightarrow> deployment" where
  "preview_deployment e d =
     \<lparr>dp_ref = commit_id d, dp_environment = js ''preview'',
      dp_description = js ''Preview deployment for ''
        @ (case pull_request_head_sha e of Some s \<Rightarrow> s | None \<Rightarrow> js ''undefined'')
        @ js '' on Render'',
      dp_transient_environment = True, dp_auto_merge = False\<rparr>"

definition exceeded_deployment_status :: "nat \<Rightarrow> deployment_status" where
  "exceeded_deployment_status deployment_id =
     \<lparr>ds_deployment_id = deployment_id, ds_state = Failure, ds_log_url = None,
      ds_environment_url = None,
      ds_description = Some (js ''Exceeded max number of attempts'')\<rparr>"

definition iteration_deployment_status ::
    "ServiceIdentity \<Rightarrow> Deploy \<Rightarrow> nat \<Rightarrow> gh_state \<Rightarrow> deployment_status" where
  "iteration_deployment_status i d deployment_id st =
     \<lparr>ds_deployment_id = deployment_id, ds_state = st, ds_log_url = Some (dashboardUrl i),
      ds_environment_url = (if status d = js ''live'' then Some (serverUrl i) else None),
      ds_description = (if status d = js ''build_failed'' then Some (js ''Build failed'') else None)\<rparr>"

function loop_deployment ::
    "env \<Rightarrow> ServiceIdentity \<Rightarrow> Deploy \<Rightarrow> nat \<Rightarrow> nat \<Rightarrow> event list \<Rightarrow> exit \<times> event list" where
  "loop_deployment e i d deployment_id attempts tr =
     (if attempts > 100 then
        (case createDeploymentStatus e (exceeded_deployment_status deployment_id) tr of
           (Inl err, tr1) \<Rightarrow> (Thrown err, tr1)
         | (Inr _, tr1) \<Rightarrow> (Exceeded, tr1))
      else
        (case render_get_deploy e (deploy_url i d) tr of
           (Inl err, tr1) \<Rightarrow> (Thrown err, tr1)
         | (Inr deployStatus, tr1) \<Rightarrow>
             (case createDeploymentStatus e
                     (iteration_deployment_status i d deployment_id
                        (map_status_deployment Pending deployStatus)) tr1 of
                (Inl err, tr2) \<Rightarrow> (Thrown err, tr2)
              | (Inr _, tr2) \<Rightarrow>
                  if map_status_deployment Pending deployStatus = Pending then
                    loop_deployment e i d deployment_id (attempts + 1) (tr2 @ [Wait 5000])
                  else if map_status_deployment Pending deployStatus = Success then
                    (Succeeded, tr2 @ [SetOutput (state_name Success) (js ''success'')])
                  else if map_status_deployment Pending deployStatus = Failure then
                    (Failed, tr2 @ [SetOutput (state_name Failure) (js ''failure'')])
                  else (Loop_ended, tr2))))"
  by pat_completeness auto
termination
  by (relation "measure (\<lambda>(e, i, d, deployment_id, attempts, tr). 101 - attempts)") auto

declare loop_deployment.simps [simp del]

definition run_deployment_body :: "env \<Rightarrow> exit \<times> event list" where
  "run_deployment_body e =
     (case comment_body e of
        None \<Rightarrow> (Thrown (Err (js ''No comment body found'')), [])
      | Some commentBody \<Rightarrow>
          if commentBody = [] then (Thrown (Err (js ''No comment body found'')), [])
          else if \<not> includes_str commentBody marker then (Skipped, [])
          else
            (case parseCommentBody commentBody of
               Inl err \<Rightarrow> (Thrown err, [])
             | Inr i \<Rightarrow>
                 (let tr = identity_outputs i @ [GetDeploys (deploys_url i)] in
                  case render_deploys e of
                    Inl err \<Rightarrow> (Thrown err, tr)
                  | Inr data \<Rightarrow>
                      if data = [] then (Thrown (Err (js ''No deploys found'')), tr)
                      else
                        (let d = most_recent data;
                             tr1 = tr @ [CreateDeployment (preview_deployment e d)] in
                         case create_deployment e of
                           Inl err \<Rightarrow> (Thrown err, tr1)
                         | Inr None \<Rightarrow> (Thrown (Err (js ''No deployment ID found'')), tr1)
                         | Inr (Some deployment_id) \<Rightarrow>
                             loop_deployment e i d deployment_id 0
                               (tr1 @ [SetOutput (js ''deployment-id'') (toString deployment_id)])))))"

definition run_deployment :: "env \<Rightarrow> event list" where
  "run_deployment e = catch (run_deployment_body e)"

section \<open>When the requests are made\<close>

text \<open>
  Modelled from the spec: \<^verbatim>\<open>wait\<close> (the module \<^verbatim>\<open>./wait\<close>, which is not among the sources)
  starts a delay of the given number of milliseconds, which is over that many milliseconds
  later; only a caller that awaits the call is held until then.

  \<open>timeline\<close> gives each event the time at which it starts. Every event but \<open>Wait\<close> is
  awaited or synchronous in the source and holds the invocation for \<open>dur ev\<close> milliseconds;
  the call of \<^verbatim>\<open>wait\<close> is not awaited in either variant and holds it for none.
\<close>

fun elapsed :: "(event \<Rightarrow> int) \<Rightarrow> event \<Rightarrow> int" where
  "elapsed dur (Wait ms) = 0"
| "elapsed dur ev = dur ev"

fun timeline :: "(event \<Rightarrow> int) \<Rightarrow> int \<Rightarrow> event list \<Rightarrow> (int \<times> event) list" where
  "timeline dur now [] = []"
| "timeline dur now (ev # evs) = (now, ev) # timeline dur (now + elapsed dur ev) evs"

text \<open>
  No request for the status starts before a delay that was started earlier is over.
\<close>

fun fetch_not_before :: "int \<Rightarrow> (int \<times> event) list \<Rightarrow> bool" where
  "fetch_not_before t [] = True"
| "fetch_not_before t ((t', ev) # rest) = ((is_GetDeploy ev \<longrightarrow> t \<le> t') \<and> fetch_not_before t rest)"

fun waits_respected :: "(int \<times> event) list \<Rightarrow> bool" where
  "waits_respected [] = True"
| "waits_respected ((t, Wait ms) # rest) = (fetch_not_before (t + ms) rest \<and> waits_respected rest)"
| "waits_respected ((t, ev) # rest) = waits_respected rest"

text \<open>Each request takes 200 ms, everything else no time.\<close>

fun request_200 :: "event \<Rightarrow> int" where
  "request_200 (SetOutput k v) = 0"
| "request_200 (SetFailed m) = 0"
| "request_200 (Wait ms) = 0"
| "request_200 ev = 200"

section \<open>What one iteration leaves behind\<close>

text \<open>
  The events of an iteration that finds the deploy in progress, in the commit-status variant
  and in the deployment variant: the request, the record with the state \<open>Pending\<close>, and the
  call of \<^verbatim>\<open>wait\<close>.
\<close>

definition pending_round :: "env \<Rightarrow> ServiceIdentity \<Rightarrow> Deploy \<Rightarrow> event list" where
  "pending_round e i d =
     [GetDeploy (deploy_url i d),
      CreateCommitStatus (iteration_status e i d Pending (js ''pending'')),
      Wait (interval e)]"

definition pending_round_deployment :: "ServiceIdentity \<Rightarrow> Deploy \<Rightarrow> nat \<Rightarrow> event list" where
  "pending_round_deployment i d deployment_id =
     [GetDeploy (deploy_url i d),
      CreateDeploymentStatus (iteration_deployment_status i d deployment_id Pending),
      Wait 5000]"

text \<open>The record that confirms a success or a failure, and the exit that goes with it.\<close>

definition confirming_status :: "env \<Rightarrow> ServiceIdentity \<Rightarrow> Deploy \<Rightarrow> gh_state \<Rightarrow> commit_status" where
  "confirming_status e i d st = (if st = Success then succeeded_status e i d else failed_status e i d)"

definition exit_of :: "gh_state \<Rightarrow> exit" where
  "exit_of st = (if st = Success then Succeeded else Failed)"

text \<open>What \<open>run\<close> has done when it enters the loop, in either variant.\<close>

definition before_loop :: "env \<Rightarrow> ServiceIdentity \<Rightarrow> Deploy \<Rightarrow> nat \<Rightarrow> event list" where
  "before_loop e i d commitStatus_id =
     identity_outputs i
     @ [GetDeploys (deploys_url i),
        CreateCommitStatus (initial_status e i d),
        SetOutput (js ''status-id'') (toString commitStatus_id)]"

definition before_loop_deployment :: "env \<Rightarrow> ServiceIdentity \<Rightarrow> Deploy \<Rightarrow> nat \<Rightarrow> event list" where
  "before_loop_deployment e i d deployment_id =
     identity_outputs i
     @ [GetDeploys (deploys_url i),
        CreateDeployment (preview_deployment e d),
        SetOutput (js ''deployment-id'') (toString deployment_id)]"

section \<open>Concrete invocations\<close>

text \<open>A comment as the provider writes it, and what the parser finds in it.\<close>

definition example_comment :: jsstring where
  "example_comment =
     js ''Your [Render](https://render.com) PR Server URL is https://api-pr-324-ovto.onrender.com. Follow its progress at https://dashboard.render.com/web/srv-ci9bopliuie2p3pd7a3g.''"

definition example_identity :: ServiceIdentity where
  "example_identity =
     \<lparr>serverUrl = js ''https://api-pr-324-ovto.onrender.com'',
      serviceName = js ''web'',
      serviceId = js ''srv-ci9bopliuie2p3pd7a3g'',
      dashboardUrl = js ''https://dashboard.render.com/web/srv-ci9bopliuie2p3pd7a3g''\<rparr>"

text \<open>The same comment with the service id cut off the dashboard URL.\<close>

definition comment_without_id :: jsstring where
  "comment_without_id =
     js ''Your [Render](https://render.com) PR Server URL is https://api-pr-324-ovto.onrender.com. Follow its progress at https://dashboard.render.com/web/.''"

text \<open>Three deploys, the latest in the middle of the list; none is live when listed.\<close>

definition older_deploy :: Deploy where
  "older_deploy = \<lparr>deploy_id = js ''dep-1'', commit_id = js ''c0ffee1'',
                    status = js ''deactivated'', createdAt = 1700000000000\<rparr>"

definition example_deploy :: Deploy where
  "example_deploy = \<lparr>deploy_id = js ''dep-3'', commit_id = js ''c0ffee3'',
                      status = js ''build_in_progress'', createdAt = 1700000900000\<rparr>"

definition middle_deploy :: Deploy where
  "middle_deploy = \<lparr>deploy_id = js ''dep-2'', commit_id = js ''c0ffee2'',
                     status = js ''deactivated'', createdAt = 1700000500000\<rparr>"

definition example_data :: "Data list" where
  "example_data =
     [\<lparr>deploy = older_deploy, cursor = js ''a''\<rparr>,
      \<lparr>deploy = example_deploy, cursor = js ''b''\<rparr>,
      \<lparr>deploy = middle_deploy, cursor = js ''c''\<rparr>]"

text \<open>
  An invocation on that comment and that listing, whose provider answers \<^verbatim>\<open>pending\<close> twice
  and \<^verbatim>\<open>live\<close> from then on, and whose platform accepts every record.
\<close>

definition example_env :: env where
  "example_env =
     \<lparr>input_max_attempts = None, input_interval = None,
      comment_body = Some example_comment, sha = js ''5ha'',
      pull_request_head_sha = None,
      render_deploys = Inr example_data,
      render_deploy = (\<lambda>k. Inr (if k < 2 then js ''pending'' else js ''live'')),
      create_commit_status = (\<lambda>k. Inr (700 + k)),
      create_deployment = Inr (Some 42),
      create_deployment_status = (\<lambda>k. Inr ())\<rparr>"

text \<open>The provider answers \<^verbatim>\<open>live\<close> at once; it answers \<^verbatim>\<open>deactivated\<close> at once.\<close>

definition live_env :: env where
  "live_env = example_env\<lparr>render_deploy := (\<lambda>k. Inr (js ''live''))\<rparr>"

definition deactivated_env :: env where
  "deactivated_env = example_env\<lparr>render_deploy := (\<lambda>k. Inr (js ''deactivated''))\<rparr>"

text \<open>The provider never leaves \<^verbatim>\<open>pending\<close>, and the input \<^verbatim>\<open>max-attempts\<close> is 2.\<close>

definition stuck_env :: env where
  "stuck_env = example_env\<lparr>input_max_attempts := Some 2,
                             render_deploy := (\<lambda>k. Inr (js ''pending''))\<rparr>"

text \<open>Comments that are not the provider's: an empty one, and one written by a person.\<close>

definition empty_comment_env :: env where
  "empty_comment_env = example_env\<lparr>comment_body := Some []\<rparr>"

definition unrelated_env :: env where
  "unrelated_env = example_env\<lparr>comment_body := Some (js ''Looks good to me'')\<rparr>"

definition without_id_env :: env where
  "without_id_env = example_env\<lparr>comment_body := Some comment_without_id\<rparr>"

section \<open>Facts about the helpers\<close>

lemma calls_Nil [simp]: "calls P [] = 0"
  by (simp add: calls_def)

lemma calls_Cons [simp]: "calls P (ev # evs) = (if P ev then 1 else 0) + calls P evs"
  by (simp add: calls_def)

lemma calls_append [simp]: "calls P (tr @ evs) = calls P tr + calls P evs"
  by (simp add: calls_def)

text \<open>The first entry of a list sorted by a key is an entry with the least key.\<close>

lemma hd_sort_key_least:
  assumes "xs \<noteq> []"
  shows "hd (sort_key f xs) \<in> set xs \<and> (\<forall>x \<in> set xs. f (hd (sort_key f xs)) \<le> f x)"
proof -
  let ?ys = "sort_key f xs"
  have ne: "?ys \<noteq> []" using assms by (metis length_0_conv length_sort)
  then obtain y ys where ys: "?ys = y # ys" by (cases ?ys) auto
  have "sorted (map f ?ys)" by (rule sorted_sort_key)
  with ys have "\<forall>x \<in> set ys. f y \<le> f x" by simp
  moreover have "set ?ys = set xs" by simp
  ultimately show ?thesis using ys by (metis hd_in_set list.sel(1) ne order_refl set_ConsD)
qed

section \<open>Facts about the loop of the commit-status variant\<close>

lemma js_neq: "js ''live'' \<noteq> js ''build_failed''" "js ''live'' \<noteq> js ''deactivated''"
  "js ''build_failed'' \<noteq> js ''deactivated''" "js ''pending'' \<noteq> js ''build_failed''"
  "js ''pending'' \<noteq> js ''live''" "js ''pending'' \<noteq> js ''deactivated''" 
  by (simp_all add: js_def)

lemma map_status_live: "map_status Pending (js ''live'') = Success"
  using js_neq by (simp add: map_status_def)

lemma map_status_build_failed: "map_status Pending (js ''build_failed'') = Failure"
  using js_neq by (simp add: map_status_def)

lemma map_status_deactivated: "map_status Pending (js ''deactivated'') = Error"
  by (simp add: map_status_def)

lemma map_status_Pending_iff:
  "map_status Pending s = Pending \<longleftrightarrow>
   s \<noteq> js ''live'' \<and> s \<noteq> js ''build_failed'' \<and> s \<noteq> js ''deactivated''"
  by (simp add: map_status_def)

lemma iteration_status_pending:
  "map_status Pending s = Pending \<Longrightarrow>
   iteration_status e i d Pending s = iteration_status e i d Pending (js ''pending'')"
  using js_neq by (simp add: map_status_Pending_iff iteration_status_def)

lemma loop_exceeded:
  assumes "max_attempts e < int attempts"
    and "create_commit_status e (calls is_CreateCommitStatus tr) = Inr n"
  shows "loop_commit_status e i d attempts tr =
         (Exceeded, tr @ [CreateCommitStatus (exceeded_status e i d)])"
  using assms by (simp add: loop_commit_status.simps createCommitStatus_def)

lemma loop_pending:
  assumes "\<not> max_attempts e < int attempts"
    and "render_deploy e (calls is_GetDeploy tr) = Inr s"
    and "map_status Pending s = Pending"
    and "create_commit_status e (calls is_CreateCommitStatus tr) = Inr n"
  shows "loop_commit_status e i d attempts tr =
         loop_commit_status e i d (attempts + 1) (tr @ pending_round e i d)"
  using assms iteration_status_pending [of s e i d]
  by (subst loop_commit_status.simps)
     (simp add: createCommitStatus_def render_get_deploy_def pending_round_def)

lemma loop_terminal:
  assumes "\<not> max_attempts e < int attempts"
    and "render_deploy e (calls is_GetDeploy tr) = Inr s"
    and "map_status Pending s = st" and "st = Success \<or> st = Failure"
    and "create_commit_status e (calls is_CreateCommitStatus tr) = Inr n"
    and "create_commit_status e (calls is_CreateCommitStatus tr + 1) = Inr n'"
  shows "loop_commit_status e i d attempts tr =
         (exit_of st,
          tr @ [GetDeploy (deploy_url i d),
                CreateCommitStatus (iteration_status e i d st s),
                CreateCommitStatus (confirming_status e i d st),
                SetOutput (state_name st) (state_name st)])"
  using assms
  by (subst loop_commit_status.simps)
     (auto simp add: createCommitStatus_def render_get_deploy_def exit_of_def confirming_status_def)

lemma loop_deactivated:
  assumes "\<not> max_attempts e < int attempts"
    and "render_deploy e (calls is_GetDeploy tr) = Inr (js ''deactivated'')"
    and "create_commit_status e (calls is_CreateCommitStatus tr) = Inr n"
  shows "loop_commit_status e i d attempts tr =
         (Loop_ended,
          tr @ [GetDeploy (deploy_url i d),
                CreateCommitStatus (iteration_status e i d Error (js ''deactivated''))])"
  using assms
  by (subst loop_commit_status.simps)
     (simp add: createCommitStatus_def render_get_deploy_def map_status_deactivated)

lemma calls_pending_round [simp]:
  "calls is_GetDeploy (pending_round e i d) = 1"
  "calls is_CreateCommitStatus (pending_round e i d) = 1"
  by (simp_all add: pending_round_def)

lemma loop_stuck:
  assumes ok: "\<forall>k. \<exists>n. create_commit_status e k = Inr n"
    and stuck: "\<forall>k. \<exists>s. render_deploy e k = Inr s \<and> map_status Pending s = Pending"
  shows "loop_commit_status e i d attempts tr =
         (Exceeded,
          tr @ concat (replicate (nat (max_attempts e + 1 - int attempts)) (pending_round e i d))
             @ [CreateCommitStatus (exceeded_status e i d)])"
proof (induction "nat (max_attempts e + 1 - int attempts)" arbitrary: attempts tr)
  case 0
  then have "max_attempts e < int attempts" by simp
  moreover obtain n where "create_commit_status e (calls is_CreateCommitStatus tr) = Inr n"
    using ok by blast
  ultimately show ?case using 0 by (simp add: loop_exceeded)
next
  case (Suc m)
  then have le: "\<not> max_attempts e < int attempts" by simp
  obtain n where n: "create_commit_status e (calls is_CreateCommitStatus tr) = Inr n"
    using ok by blast
  obtain s where s: "render_deploy e (calls is_GetDeploy tr) = Inr s" "map_status Pending s = Pending"
    using stuck by blast
  have m: "m = nat (max_attempts e + 1 - int (attempts + 1))" using Suc(2) by simp
  have step: "loop_commit_status e i d attempts tr =
              loop_commit_status e i d (attempts + 1) (tr @ pending_round e i d)"
    by (rule loop_pending [OF le s n])
  have "nat (max_attempts e + 1 - int attempts) = Suc m" using Suc(2) by simp
  then show ?case
    using Suc(1) [OF m, of "tr @ pending_round e i d"] step m by simp
qed

lemma loop_reaches_terminal:
  assumes ok: "\<forall>k. \<exists>m. create_commit_status e k = Inr m"
    and st: "map_status Pending s = st" "st = Success \<or> st = Failure"
  shows "(\<forall>k<n. \<exists>s'. render_deploy e (calls is_GetDeploy tr + k) = Inr s' \<and> map_status Pending s' = Pending) \<Longrightarrow>
     int (attempts + n) \<le> max_attempts e \<Longrightarrow>
     render_deploy e (calls is_GetDeploy tr + n) = Inr s \<Longrightarrow>
     loop_commit_status e i d attempts tr =
       (exit_of st,
        tr @ concat (replicate n (pending_round e i d))
           @ [GetDeploy (deploy_url i d),
              CreateCommitStatus (iteration_status e i d st s),
              CreateCommitStatus (confirming_status e i d st),
              SetOutput (state_name st) (state_name st)])"
proof (induction n arbitrary: attempts tr)
  case 0
  obtain m where m: "create_commit_status e (calls is_CreateCommitStatus tr) = Inr m"
    using ok by blast
  obtain m' where m': "create_commit_status e (calls is_CreateCommitStatus tr + 1) = Inr m'"
    using ok by blast
  have "\<not> max_attempts e < int attempts" using 0(2) by simp
  moreover have "render_deploy e (calls is_GetDeploy tr) = Inr s" using 0(3) by simp
  ultimately show ?case
    using loop_terminal [OF _ _ st m m'] by simp
next
  case (Suc n)
  obtain m where m: "create_commit_status e (calls is_CreateCommitStatus tr) = Inr m"
    using ok by blast
  obtain s' where s': "render_deploy e (calls is_GetDeploy tr) = Inr s'"
      "map_status Pending s' = Pending"
    using Suc(2) by force
  have le: "\<not> max_attempts e < int attempts" using Suc(3) by simp
  have step: "loop_commit_status e i d attempts tr =
              loop_commit_status e i d (attempts + 1) (tr @ pending_round e i d)"
    by (rule loop_pending [OF le s' m])
  have pend: "\<forall>k<n. \<exists>s'. render_deploy e (calls is_GetDeploy (tr @ pending_round e i d) + k) = Inr s'
                 \<and> map_status Pending s' = Pending"
  proof (intro allI impI)
    fix k assume "k < n"
    then have "Suc k < Suc n" by simp
    with Suc(2) show "\<exists>s'. render_deploy e (calls is_GetDeploy (tr @ pending_round e i d) + k) = Inr s'
                 \<and> map_status Pending s' = Pending"
      by (metis add.assoc calls_append calls_pending_round(1) plus_1_eq_Suc)
  qed
  have bud: "int (attempts + 1 + n) \<le> max_attempts e" using Suc(3) by simp
  have fin: "render_deploy e (calls is_GetDeploy (tr @ pending_round e i d) + n) = Inr s"
    using Suc(4) by simp
  show ?case
    using Suc(1) [OF pend bud fin] step by simp
qed

lemma marker_not_in_empty: "\<not> includes_str [] marker"
  by (simp add: marker_def js_def)

lemma run_enters_loop:
  assumes "comment_body e = Some c" "includes_str c marker" "parseCommentBody c = Inr i"
    and "render_deploys e = Inr data" "data \<noteq> []"
    and "create_commit_status e 0 = Inr n"
  shows "run_commit_status_body e =
         loop_commit_status e i (most_recent data) 0 (before_loop e i (most_recent data) n)"
proof -
  have "c \<noteq> []" using assms(2) marker_not_in_empty by auto
  then show ?thesis
    using assms
    by (simp add: run_commit_status_body_def createCommitStatus_def before_loop_def
        identity_outputs_def Let_def)
qed

lemma calls_before_loop [simp]:
  "calls is_GetDeploy (before_loop e i d n) = 0"
  by (simp add: before_loop_def identity_outputs_def)

lemma catch_not_thrown:
  "(\<And>err. x \<noteq> Thrown err) \<Longrightarrow> catch (x, tr) = tr"
  by (cases x) (auto simp: catch_def)

section \<open>Facts about the loop of the deployment variant\<close>

lemma map_status_deployment_live: "map_status_deployment Pending (js ''live'') = Success"
  using js_neq by (simp add: map_status_deployment_def)

lemma map_status_deployment_build_failed:
  "map_status_deployment Pending (js ''build_failed'') = Failure"
  using js_neq by (simp add: map_status_deployment_def)

lemma map_status_deployment_deactivated:
  "map_status_deployment Pending (js ''deactivated'') = Inactive"
  by (simp add: map_status_deployment_def)

lemma map_status_deployment_Pending_iff:
  "map_status_deployment Pending s = Pending \<longleftrightarrow> map_status Pending s = Pending"
  by (simp add: map_status_deployment_def map_status_def)

lemma loop_deployment_pending:
  assumes "attempts \<le> 100"
    and "render_deploy e (calls is_GetDeploy tr) = Inr s"
    and "map_status Pending s = Pending"
    and "create_deployment_status e (calls is_CreateDeploymentStatus tr) = Inr u"
  shows "loop_deployment e i d deployment_id attempts tr =
         loop_deployment e i d deployment_id (attempts + 1)
           (tr @ pending_round_deployment i d deployment_id)"
  using assms map_status_deployment_Pending_iff [of s]
  by (subst loop_deployment.simps)
     (simp add: createDeploymentStatus_def render_get_deploy_def pending_round_deployment_def)

lemma loop_deployment_terminal:
  assumes "attempts \<le> 100"
    and "render_deploy e (calls is_GetDeploy tr) = Inr s"
    and "map_status Pending s = st" and "st = Success \<or> st = Failure"
    and "create_deployment_status e (calls is_CreateDeploymentStatus tr) = Inr u"
  shows "loop_deployment e i d deployment_id attempts tr =
         (exit_of st,
          tr @ [GetDeploy (deploy_url i d),
                CreateDeploymentStatus (iteration_deployment_status i d deployment_id st),
                SetOutput (state_name st) (state_name st)])"
proof -
  have "map_status_deployment Pending s = st"
    using assms(3,4) by (auto simp: map_status_deployment_def map_status_def split: if_splits)
  then show ?thesis
    using assms
    by (subst loop_deployment.simps)
       (auto simp add: createDeploymentStatus_def render_get_deploy_def exit_of_def)
qed

lemma loop_deployment_deactivated:
  assumes "attempts \<le> 100"
    and "render_deploy e (calls is_GetDeploy tr) = Inr (js ''deactivated'')"
    and "create_deployment_status e (calls is_CreateDeploymentStatus tr) = Inr u"
  shows "loop_deployment e i d deployment_id attempts tr =
         (Loop_ended,
          tr @ [GetDeploy (deploy_url i d),
                CreateDeploymentStatus (iteration_deployment_status i d deployment_id Inactive)])"
  using assms
  by (subst loop_deployment.simps)
     (simp add: createDeploymentStatus_def render_get_deploy_def map_status_deployment_deactivated)

lemma calls_pending_round_deployment [simp]:
  "calls is_GetDeploy (pending_round_deployment i d n) = 1"
  "calls is_CreateDeploymentStatus (pending_round_deployment i d n) = 1"
  by (simp_all add: pending_round_deployment_def)

lemma loop_deployment_reaches_terminal:
  assumes ok: "\<forall>k. \<exists>u. create_deployment_status e k = Inr u"
    and st: "map_status Pending s = st" "st = Success \<or> st = Failure"
  shows "(\<forall>k<n. \<exists>s'. render_deploy e (calls is_GetDeploy tr + k) = Inr s' \<and> map_status Pending s' = Pending) \<Longrightarrow>
     attempts + n \<le> 100 \<Longrightarrow>
     render_deploy e (calls is_GetDeploy tr + n) = Inr s \<Longrightarrow>
     loop_deployment e i d deployment_id attempts tr =
       (exit_of st,
        tr @ concat (replicate n (pending_round_deployment i d deployment_id))
           @ [GetDeploy (deploy_url i d),
              CreateDeploymentStatus (iteration_deployment_status i d deployment_id st),
              SetOutput (state_name st) (state_name st)])"
proof (induction n arbitrary: attempts tr)
  case 0
  obtain u where u: "create_deployment_status e (calls is_CreateDeploymentStatus tr) = Inr u"
    using ok by blast
  have "attempts \<le> 100" using 0(2) by simp
  moreover have "render_deploy e (calls is_GetDeploy tr) = Inr s" using 0(3) by simp
  ultimately show ?case
    using loop_deployment_terminal [OF _ _ st u] by simp
next
  case (Suc n)
  obtain u where u: "create_deployment_status e (calls is_CreateDeploymentStatus tr) = Inr u"
    using ok by blast
  obtain s' where s': "render_deploy e (calls is_GetDeploy tr) = Inr s'"
      "map_status Pending s' = Pending"
    using Suc(2) by force
  have le: "attempts \<le> 100" using Suc(3) by simp
  let ?tr = "tr @ pending_round_deployment i d deployment_id"
  have step: "loop_deployment e i d deployment_id attempts tr =
              loop_deployment e i d deployment_id (attempts + 1) ?tr"
    by (rule loop_deployment_pending [OF le s' u])
  have pend: "\<forall>k<n. \<exists>s'. render_deploy e (calls is_GetDeploy ?tr + k) = Inr s'
                 \<and> map_status Pending s' = Pending"
  proof (intro allI impI)
    fix k assume "k < n"
    then have "Suc k < Suc n" by simp
    with Suc(2) show "\<exists>s'. render_deploy e (calls is_GetDeploy ?tr + k) = Inr s'
                 \<and> map_status Pending s' = Pending"
      by (metis add.assoc calls_append calls_pending_round_deployment(1) plus_1_eq_Suc)
  qed
  have bud: "attempts + 1 + n \<le> 100" using Suc(3) by simp
  have fin: "render_deploy e (calls is_GetDeploy ?tr + n) = Inr s"
    using Suc(4) by simp
  show ?case
    using Suc(1) [OF pend bud fin] step by simp
qed

lemma run_deployment_enters_loop:
  assumes "comment_body e = Some c" "includes_str c marker" "parseCommentBody c = Inr i"
    and "render_deploys e = Inr data" "data \<noteq> []"
    and "create_deployment e = Inr (Some n)"
  shows "run_deployment_body e =
         loop_deployment e i (most_recent data) n 0 (before_loop_deployment e i (most_recent data) n)"
proof -
  have "c \<noteq> []" using assms(2) marker_not_in_empty by auto
  then show ?thesis
    using assms
    by (simp add: run_deployment_body_def before_loop_deployment_def identity_outputs_def Let_def)
qed

lemma calls_before_loop_deployment [simp]:
  "calls is_GetDeploy (before_loop_deployment e i d n) = 0"
  by (simp add: before_loop_deployment_def identity_outputs_def)

lemma calls_before_loop_status [simp]:
  "calls is_CreateCommitStatus (before_loop e i d n) = 1"
  "calls is_CreateDeploymentStatus (before_loop_deployment e i d n) = 0"
  by (simp_all add: before_loop_def before_loop_deployment_def identity_outputs_def)

section \<open>Facts about the concrete invocations\<close>

lemmas regex_defs = js_def lits_def canonicalize_def tok_def line_terminator_def
  server_pattern_def dashboard_pattern_def group_of_def between_def

lemma includes_example: "includes_str example_comment marker"
  by (simp add: example_comment_def marker_def js_def)

lemma parse_example: "parseCommentBody example_comment = Inr example_identity"
  by (simp add: parseCommentBody_def example_comment_def example_identity_def regex_defs)

lemma most_recent_example: "most_recent example_data = example_deploy"
  by (simp add: example_data_def most_recent_def sort_deploys_def example_deploy_def
      older_deploy_def middle_deploy_def)

lemma toString_700: "toString 700 = js ''700''"
  by (simp add: toString.simps js_def)

lemma toString_42: "toString 42 = js ''42''"
  by (simp add: toString.simps js_def)

lemma example_data_nonempty: "example_data \<noteq> []"
  by (simp add: example_data_def)

lemma max_attempts_stuck: "max_attempts stuck_env = 2"
  by (simp add: max_attempts_def stuck_env_def)

lemma env_fields:
  "comment_body example_env = Some example_comment"
  "render_deploys example_env = Inr example_data"
  "create_commit_status example_env k = Inr (700 + k)"
  "create_deployment example_env = Inr (Some 42)"
  "create_deployment_status example_env k = Inr ()"
  "max_attempts example_env = 100"
  "interval example_env = 10000"
  by (simp_all add: example_env_def max_attempts_def interval_def)

lemma live_env_fields:
  "comment_body live_env = Some example_comment"
  "render_deploys live_env = Inr example_data"
  "create_commit_status live_env k = Inr (700 + k)"
  "create_deployment live_env = Inr (Some 42)"
  "create_deployment_status live_env k = Inr ()"
  "max_attempts live_env = 100"
  "render_deploy live_env k = Inr (js ''live'')"
  by (simp_all add: live_env_def example_env_def max_attempts_def)

lemma deactivated_env_fields:
  "comment_body deactivated_env = Some example_comment"
  "render_deploys deactivated_env = Inr example_data"
  "create_commit_status deactivated_env k = Inr (700 + k)"
  "create_deployment deactivated_env = Inr (Some 42)"
  "create_deployment_status deactivated_env k = Inr ()"
  "max_attempts deactivated_env = 100"
  "render_deploy deactivated_env k = Inr (js ''deactivated'')"
  by (simp_all add: deactivated_env_def example_env_def max_attempts_def)

lemma run_live:
  "run_commit_status live_env =
     before_loop live_env example_identity example_deploy 700
     @ [GetDeploy (deploy_url example_identity example_deploy),
        CreateCommitStatus (iteration_status live_env example_identity example_deploy Success (js ''live'')),
        CreateCommitStatus (succeeded_status live_env example_identity example_deploy),
        SetOutput (js ''success'') (js ''success'')]"
proof -
  have body: "run_commit_status_body live_env =
        loop_commit_status live_env example_identity example_deploy 0
          (before_loop live_env example_identity example_deploy 700)"
    using run_enters_loop [of live_env example_comment example_identity example_data 700]
    by (simp add: live_env_fields includes_example parse_example example_data_nonempty
        most_recent_example)
  show ?thesis
    unfolding run_commit_status_def body
    by (subst loop_terminal [where s = "js ''live''" and st = Success and n = 701 and n' = 702])
       (simp_all add: live_env_fields map_status_live catch_def exit_of_def confirming_status_def)
qed

lemma run_deployment_live:
  "run_deployment live_env =
     before_loop_deployment live_env example_identity example_deploy 42
     @ [GetDeploy (deploy_url example_identity example_deploy),
        CreateDeploymentStatus (iteration_deployment_status example_identity example_deploy 42 Success),
        SetOutput (js ''success'') (js ''success'')]"
proof -
  have body: "run_deployment_body live_env =
        loop_deployment live_env example_identity example_deploy 42 0
          (before_loop_deployment live_env example_identity example_deploy 42)"
    using run_deployment_enters_loop [of live_env example_comment example_identity example_data 42]
    by (simp add: live_env_fields includes_example parse_example example_data_nonempty
        most_recent_example)
  show ?thesis
    unfolding run_deployment_def body
    by (subst loop_deployment_terminal [where s = "js ''live''" and st = Success and u = "()"])
       (simp_all add: live_env_fields map_status_live catch_def exit_of_def)
qed

lemma run_deactivated:
  "run_commit_status deactivated_env =
     before_loop deactivated_env example_identity example_deploy 700
     @ [GetDeploy (deploy_url example_identity example_deploy),
        CreateCommitStatus
          (iteration_status deactivated_env example_identity example_deploy Error (js ''deactivated''))]"
proof -
  have body: "run_commit_status_body deactivated_env =
        loop_commit_status deactivated_env example_identity example_deploy 0
          (before_loop deactivated_env example_identity example_deploy 700)"
    using run_enters_loop [of deactivated_env example_comment example_identity example_data 700]
    by (simp add: deactivated_env_fields includes_example parse_example example_data_nonempty
        most_recent_example)
  show ?thesis
    unfolding run_commit_status_def body
    by (subst loop_deactivated [where n = 701])
       (simp_all add: deactivated_env_fields catch_def)
qed

lemma example_env_polls:
  "render_deploy example_env 0 = Inr (js ''pending'')"
  "render_deploy example_env 1 = Inr (js ''pending'')"
  "render_deploy example_env 2 = Inr (js ''live'')"
  "render_deploy example_env (Suc (Suc 0)) = Inr (js ''live'')"
  by (simp_all add: example_env_def)

lemma map_status_pending: "map_status Pending (js ''pending'') = Pending"
  using js_neq by (simp add: map_status_Pending_iff)

lemma example_env_pend:
  "\<forall>k<2. \<exists>s'. render_deploy example_env k = Inr s' \<and> map_status Pending s' = Pending"
  by (simp add: example_env_def map_status_pending)

lemma concat_replicate_2: "concat (replicate 2 xs) = xs @ xs"
  by (simp add: numeral_2_eq_2)

lemma example_bodies:
  "run_commit_status_body example_env =
     loop_commit_status example_env example_identity example_deploy 0
       (before_loop example_env example_identity example_deploy 700)"
  "run_deployment_body example_env =
     loop_deployment example_env example_identity example_deploy 42 0
       (before_loop_deployment example_env example_identity example_deploy 42)"
  using run_enters_loop [of example_env example_comment example_identity example_data 700]
    run_deployment_enters_loop [of example_env example_comment example_identity example_data 42]
  by (simp_all add: env_fields includes_example parse_example example_data_nonempty
      most_recent_example)

lemma run_example:
  "run_commit_status example_env =
     before_loop example_env example_identity example_deploy 700
     @ pending_round example_env example_identity example_deploy
     @ pending_round example_env example_identity example_deploy
     @ [GetDeploy (deploy_url example_identity example_deploy),
        CreateCommitStatus (iteration_status example_env example_identity example_deploy Success (js ''live'')),
        CreateCommitStatus (succeeded_status example_env example_identity example_deploy),
        SetOutput (js ''success'') (js ''success'')]"
proof -
  have "\<forall>k<2. \<exists>s'. render_deploy example_env
            (calls is_GetDeploy (before_loop example_env example_identity example_deploy 700) + k) = Inr s'
          \<and> map_status Pending s' = Pending"
    using example_env_pend by simp
  from loop_reaches_terminal [OF _ map_status_live _ this, of 0 example_identity example_deploy]
  show ?thesis
    by (simp add: run_commit_status_def example_bodies env_fields example_env_polls catch_def
        exit_of_def confirming_status_def concat_replicate_2)
qed

lemma run_deployment_example:
  "run_deployment example_env =
     before_loop_deployment example_env example_identity example_deploy 42
     @ pending_round_deployment example_identity example_deploy 42
     @ pending_round_deployment example_identity example_deploy 42
     @ [GetDeploy (deploy_url example_identity example_deploy),
        CreateDeploymentStatus (iteration_deployment_status example_identity example_deploy 42 Success),
        SetOutput (js ''success'') (js ''success'')]"
proof -
  have "\<forall>k<2. \<exists>s'. render_deploy example_env
            (calls is_GetDeploy (before_loop_deployment example_env example_identity example_deploy 42) + k) = Inr s'
          \<and> map_status Pending s' = Pending"
    using example_env_pend by simp
  from loop_deployment_reaches_terminal
    [OF _ map_status_live _ this, of 0 example_identity example_deploy 42]
  show ?thesis
    by (simp add: run_deployment_def example_bodies env_fields example_env_polls catch_def
        exit_of_def concat_replicate_2)
qed

section \<open>The deploy under observation\<close>

text \<open>
  C6. Whatever the order of the fetched list, the deploy placed under observation is an entry
  of the list whose \<open>createdAt\<close> is the greatest of the list, and not simply the first entry:
  \<open>most_recent\<close> picks such an entry from every list that is not empty, and it is on this
  deploy that either variant of \<open>run\<close> enters its loop.
\<close>

theorem most_recent_max:
  assumes "data \<noteq> []"
  shows "(\<exists>a \<in> set data. most_recent data = deploy a) \<and>
         (\<forall>a \<in> set data. createdAt (deploy a) \<le> createdAt (most_recent data)) \<and>
         (comment_body e = Some c \<and> includes_str c marker \<and> parseCommentBody c = Inr i \<and>
          render_deploys e = Inr data \<longrightarrow>
            (\<forall>n. create_commit_status e 0 = Inr n \<longrightarrow>
               run_commit_status_body e =
                 loop_commit_status e i (most_recent data) 0
                   (before_loop e i (most_recent data) n)) \<and>
            (\<forall>n. create_deployment e = Inr (Some n) \<longrightarrow>
               run_deployment_body e =
                 loop_deployment e i (most_recent data) n 0
                   (before_loop_deployment e i (most_recent data) n)))"
proof (intro conjI)
  show "\<exists>a \<in> set data. most_recent data = deploy a"
    using hd_sort_key_least [OF assms, of "\<lambda>a. - createdAt (deploy a)"]
    by (auto simp: most_recent_def sort_deploys_def)
  show "\<forall>a \<in> set data. createdAt (deploy a) \<le> createdAt (most_recent data)"
    using hd_sort_key_least [OF assms, of "\<lambda>a. - createdAt (deploy a)"]
    by (auto simp: most_recent_def sort_deploys_def)
  show "comment_body e = Some c \<and> includes_str c marker \<and> parseCommentBody c = Inr i \<and>
          render_deploys e = Inr data \<longrightarrow>
            (\<forall>n. create_commit_status e 0 = Inr n \<longrightarrow>
               run_commit_status_body e =
                 loop_commit_status e i (most_recent data) 0
                   (before_loop e i (most_recent data) n)) \<and>
            (\<forall>n. create_deployment e = Inr (Some n) \<longrightarrow>
               run_deployment_body e =
                 loop_deployment e i (most_recent data) n 0
                   (before_loop_deployment e i (most_recent data) n))"
    using run_enters_loop [of e c i data] run_deployment_enters_loop [of e c i data] assms
    by blast
qed

theorem most_recent_max_witness:
  "example_data \<noteq> [] \<and> most_recent example_data = example_deploy \<and>
   most_recent example_data \<noteq> deploy (hd example_data) \<and>
   createdAt (deploy (example_data ! 0)) \<le> createdAt (most_recent example_data) \<and>
   createdAt (deploy (example_data ! 2)) \<le> createdAt (most_recent example_data) \<and>
   comment_body example_env = Some example_comment \<and> includes_str example_comment marker \<and>
   parseCommentBody example_comment = Inr example_identity \<and>
   render_deploys example_env = Inr example_data \<and>
   run_commit_status_body example_env =
     loop_commit_status example_env example_identity example_deploy 0
       (before_loop example_env example_identity example_deploy 700) \<and>
   run_deployment_body example_env =
     loop_deployment example_env example_identity example_deploy 42 0
       (before_loop_deployment example_env example_identity example_deploy 42)"
proof -
  have first: "deploy (hd example_data) = older_deploy"
    and entries: "deploy (example_data ! 0) = older_deploy"
      "deploy (example_data ! 2) = middle_deploy"
    by (simp_all add: example_data_def)
  have times: "createdAt older_deploy \<le> createdAt example_deploy"
      "createdAt middle_deploy \<le> createdAt example_deploy" "example_deploy \<noteq> older_deploy"
    by (simp_all add: older_deploy_def middle_deploy_def example_deploy_def)
  show ?thesis
    using most_recent_max [OF example_data_nonempty, of example_env example_comment example_identity]
      times
    by (simp add: most_recent_example first entries env_fields includes_example parse_example
        example_data_nonempty)
qed

section \<open>The attempt budget\<close>

text \<open>
  C4. \<open>run\<close> enters the loop with \<open>attempts\<close> at 0, an iteration that leaves the state at
  \<open>Pending\<close> goes on with \<open>attempts + 1\<close> (lemma \<open>loop_pending\<close>), and the loop gives up when
  \<open>attempts > max_attempts\<close> (lemma \<open>loop_exceeded\<close>). So when the provider never leaves the
  states in progress and the budget is a non-negative number, the status is requested
  exactly \<open>max_attempts + 1\<close> times, and then the invocation leaves through the exit for an
  exceeded budget.
\<close>

theorem attempts_budget:
  assumes comment: "comment_body e = Some c" "includes_str c marker" "parseCommentBody c = Inr i"
    and listing: "render_deploys e = Inr data" "data \<noteq> []"
    and ok: "\<forall>k. \<exists>n. create_commit_status e k = Inr n"
    and stuck: "\<forall>k. \<exists>s. render_deploy e k = Inr s \<and> map_status Pending s = Pending"
    and budget: "0 \<le> max_attempts e"
  shows "fst (run_commit_status_body e) = Exceeded \<and>
         int (calls is_GetDeploy (run_commit_status e)) = max_attempts e + 1 \<and>
         (\<exists>n. run_commit_status e =
            before_loop e i (most_recent data) n
            @ concat (replicate (nat (max_attempts e) + 1) (pending_round e i (most_recent data)))
            @ [CreateCommitStatus (exceeded_status e i (most_recent data))])"
proof -
  obtain n where n: "create_commit_status e 0 = Inr n" using ok by blast
  let ?d = "most_recent data"
  have body: "run_commit_status_body e =
        (Exceeded,
         before_loop e i ?d n
         @ concat (replicate (nat (max_attempts e + 1)) (pending_round e i ?d))
         @ [CreateCommitStatus (exceeded_status e i ?d)])"
    using run_enters_loop [OF comment listing n] loop_stuck [OF ok stuck, of i ?d 0] by simp
  have cnt: "calls is_GetDeploy (concat (replicate k (pending_round e i ?d))) = k" for k
    by (induction k) simp_all
  have eq: "nat (max_attempts e + 1) = nat (max_attempts e) + 1" using budget by simp
  have run: "run_commit_status e =
         before_loop e i ?d n
         @ concat (replicate (nat (max_attempts e) + 1) (pending_round e i ?d))
         @ [CreateCommitStatus (exceeded_status e i ?d)]"
    using body eq by (simp add: run_commit_status_def catch_def)
  have "int (calls is_GetDeploy (run_commit_status e)) = max_attempts e + 1"
    unfolding run using cnt [of "nat (max_attempts e) + 1"] budget by simp
  then show ?thesis using body run by auto
qed

theorem attempts_budget_witness:
  "comment_body stuck_env = Some example_comment \<and> includes_str example_comment marker \<and>
   parseCommentBody example_comment = Inr example_identity \<and>
   render_deploys stuck_env = Inr example_data \<and> example_data \<noteq> [] \<and>
   (\<forall>k. \<exists>n. create_commit_status stuck_env k = Inr n) \<and>
   (\<forall>k. \<exists>s. render_deploy stuck_env k = Inr s \<and> map_status Pending s = Pending) \<and>
   0 \<le> max_attempts stuck_env \<and>
   fst (run_commit_status_body stuck_env) = Exceeded \<and>
   calls is_GetDeploy (run_commit_status stuck_env) = 3"
proof -
  have h1: "comment_body stuck_env = Some example_comment"
    by (simp add: stuck_env_def example_env_def)
  have h4: "render_deploys stuck_env = Inr example_data"
    by (simp add: stuck_env_def example_env_def)
  have h6: "\<forall>k. \<exists>n. create_commit_status stuck_env k = Inr n"
    by (simp add: stuck_env_def example_env_def)
  have h7: "\<forall>k. \<exists>s. render_deploy stuck_env k = Inr s \<and> map_status Pending s = Pending"
    using js_neq by (simp add: stuck_env_def example_env_def map_status_Pending_iff)
  have h8: "0 \<le> max_attempts stuck_env" by (simp add: max_attempts_stuck)
  show ?thesis
    using attempts_budget [OF h1 includes_example parse_example h4 example_data_nonempty h6 h7 h8]
      h1 includes_example parse_example h4 example_data_nonempty h6 h7
    by (simp add: max_attempts_stuck)
qed

text \<open>
  C5. When the loop finds its budget exhausted (\<open>attempts > max_attempts\<close> at the head of an
  iteration) and the platform accepts the record, it writes one commit status with the state
  \<open>Failure\<close> and the description \<^verbatim>\<open>Exceeded max number of attempts\<close>, and leaves. Nothing
  follows that record: no further request to the provider, and no failure signal, since the
  exit is a plain \<^verbatim>\<open>return\<close> that the \<^verbatim>\<open>catch\<close> lets through unchanged.
\<close>

theorem budget_exhausted:
  assumes "max_attempts e < int attempts"
    and "create_commit_status e (calls is_CreateCommitStatus tr) = Inr n"
  shows "loop_commit_status e i d attempts tr =
           (Exceeded,
            tr @ [CreateCommitStatus
                    \<lparr>cs_sha = sha e, cs_state = Failure, cs_target_url = dashboardUrl i,
                     cs_description = Some (js ''Exceeded max number of attempts''),
                     cs_context = status_context i d\<rparr>]) \<and>
         catch (loop_commit_status e i d attempts tr) =
            tr @ [CreateCommitStatus
                    \<lparr>cs_sha = sha e, cs_state = Failure, cs_target_url = dashboardUrl i,
                     cs_description = Some (js ''Exceeded max number of attempts''),
                     cs_context = status_context i d\<rparr>]"
  using loop_exceeded [OF assms, of i d]
  by (simp add: exceeded_status_def catch_def)

theorem budget_exhausted_witness:
  "max_attempts stuck_env < int 3 \<and>
   create_commit_status stuck_env (calls is_CreateCommitStatus
      (before_loop stuck_env example_identity example_deploy 700
       @ concat (replicate 3 (pending_round stuck_env example_identity example_deploy)))) = Inr 704 \<and>
   catch (loop_commit_status stuck_env example_identity example_deploy 3
      (before_loop stuck_env example_identity example_deploy 700
       @ concat (replicate 3 (pending_round stuck_env example_identity example_deploy)))) =
     before_loop stuck_env example_identity example_deploy 700
     @ concat (replicate 3 (pending_round stuck_env example_identity example_deploy))
     @ [CreateCommitStatus
          \<lparr>cs_sha = sha stuck_env, cs_state = Failure,
           cs_target_url = dashboardUrl example_identity,
           cs_description = Some (js ''Exceeded max number of attempts''),
           cs_context = status_context example_identity example_deploy\<rparr>]"
proof -
  let ?tr = "before_loop stuck_env example_identity example_deploy 700
       @ concat (replicate 3 (pending_round stuck_env example_identity example_deploy))"
  have h1: "max_attempts stuck_env < int 3" by (simp add: max_attempts_stuck)
  have c: "calls is_CreateCommitStatus ?tr = 4"
    by (simp add: numeral_3_eq_3)
  have h2: "create_commit_status stuck_env (calls is_CreateCommitStatus ?tr) = Inr 704"
    unfolding c by (simp add: stuck_env_def example_env_def)
  from budget_exhausted [OF h1 h2, of example_identity example_deploy]
  have h3: "catch (loop_commit_status stuck_env example_identity example_deploy 3 ?tr) =
     ?tr @ [CreateCommitStatus
          \<lparr>cs_sha = sha stuck_env, cs_state = Failure,
           cs_target_url = dashboardUrl example_identity,
           cs_description = Some (js ''Exceeded max number of attempts''),
           cs_context = status_context example_identity example_deploy\<rparr>]"
    by (rule conjunct2)
  show ?thesis
    using h1 h2 h3 by (simp only: append_assoc simp_thms)
qed

section \<open>Terminal states\<close>

text \<open>
  C10. When the provider answers \<^verbatim>\<open>deactivated\<close> in some iteration, that iteration sets the
  state to \<open>Error\<close> (commit-status variant) or \<open>Inactive\<close> (deployment variant) and writes the
  record of the iteration; the loop then ends, and with it the invocation: no confirming
  record, no output named after the outcome, no failure signal.
\<close>

theorem deactivated_ends_quietly:
  "(\<not> max_attempts e < int attempts \<and>
    render_deploy e (calls is_GetDeploy tr) = Inr (js ''deactivated'') \<and>
    create_commit_status e (calls is_CreateCommitStatus tr) = Inr n \<longrightarrow>
      loop_commit_status e i d attempts tr =
        (Loop_ended,
         tr @ [GetDeploy (deploy_url i d),
               CreateCommitStatus (iteration_status e i d Error (js ''deactivated''))]) \<and>
      catch (loop_commit_status e i d attempts tr) =
         tr @ [GetDeploy (deploy_url i d),
               CreateCommitStatus (iteration_status e i d Error (js ''deactivated''))]) \<and>
   (attempts \<le> 100 \<and>
    render_deploy e (calls is_GetDeploy tr') = Inr (js ''deactivated'') \<and>
    create_deployment_status e (calls is_CreateDeploymentStatus tr') = Inr u \<longrightarrow>
      loop_deployment e i d deployment_id attempts tr' =
        (Loop_ended,
         tr' @ [GetDeploy (deploy_url i d),
                CreateDeploymentStatus (iteration_deployment_status i d deployment_id Inactive)]) \<and>
      catch (loop_deployment e i d deployment_id attempts tr') =
         tr' @ [GetDeploy (deploy_url i d),
                CreateDeploymentStatus (iteration_deployment_status i d deployment_id Inactive)])"
proof (intro conjI impI)
  assume a: "\<not> max_attempts e < int attempts \<and>
    render_deploy e (calls is_GetDeploy tr) = Inr (js ''deactivated'') \<and>
    create_commit_status e (calls is_CreateCommitStatus tr) = Inr n"
  then show l: "loop_commit_status e i d attempts tr =
        (Loop_ended,
         tr @ [GetDeploy (deploy_url i d),
               CreateCommitStatus (iteration_status e i d Error (js ''deactivated''))])"
    by (simp add: loop_deactivated)
  show "catch (loop_commit_status e i d attempts tr) =
         tr @ [GetDeploy (deploy_url i d),
               CreateCommitStatus (iteration_status e i d Error (js ''deactivated''))]"
    unfolding l by (simp add: catch_def)
next
  assume a: "attempts \<le> 100 \<and>
    render_deploy e (calls is_GetDeploy tr') = Inr (js ''deactivated'') \<and>
    create_deployment_status e (calls is_CreateDeploymentStatus tr') = Inr u"
  then show l: "loop_deployment e i d deployment_id attempts tr' =
        (Loop_ended,
         tr' @ [GetDeploy (deploy_url i d),
                CreateDeploymentStatus (iteration_deployment_status i d deployment_id Inactive)])"
    by (simp add: loop_deployment_deactivated)
  show "catch (loop_deployment e i d deployment_id attempts tr') =
         tr' @ [GetDeploy (deploy_url i d),
                CreateDeploymentStatus (iteration_deployment_status i d deployment_id Inactive)]"
    unfolding l by (simp add: catch_def)
qed

theorem deactivated_ends_quietly_witness:
  "\<not> max_attempts deactivated_env < int 0 \<and>
   render_deploy deactivated_env 0 = Inr (js ''deactivated'') \<and>
   create_commit_status deactivated_env 1 = Inr 701 \<and>
   create_deployment_status deactivated_env 0 = Inr () \<and>
   run_commit_status deactivated_env =
     before_loop deactivated_env example_identity example_deploy 700
     @ [GetDeploy (deploy_url example_identity example_deploy),
        CreateCommitStatus
          \<lparr>cs_sha = js ''5ha'', cs_state = Error,
           cs_target_url = js ''https://dashboard.render.com/web/srv-ci9bopliuie2p3pd7a3g'',
           cs_description = None,
           cs_context = status_context example_identity example_deploy\<rparr>] \<and>
   run_deployment deactivated_env =
     before_loop_deployment deactivated_env example_identity example_deploy 42
     @ [GetDeploy (deploy_url example_identity example_deploy),
        CreateDeploymentStatus
          \<lparr>ds_deployment_id = 42, ds_state = Inactive,
           ds_log_url = Some (js ''https://dashboard.render.com/web/srv-ci9bopliuie2p3pd7a3g''),
           ds_environment_url = None, ds_description = None\<rparr>]"
proof -
  let ?tr = "before_loop deactivated_env example_identity example_deploy 700"
  let ?tr' = "before_loop_deployment deactivated_env example_identity example_deploy 42"
  have body: "run_commit_status_body deactivated_env =
        loop_commit_status deactivated_env example_identity example_deploy 0 ?tr"
    using run_enters_loop [of deactivated_env example_comment example_identity example_data 700]
    by (simp add: deactivated_env_fields includes_example parse_example example_data_nonempty
        most_recent_example)
  have body': "run_deployment_body deactivated_env =
        loop_deployment deactivated_env example_identity example_deploy 42 0 ?tr'"
    using run_deployment_enters_loop
      [of deactivated_env example_comment example_identity example_data 42]
    by (simp add: deactivated_env_fields includes_example parse_example example_data_nonempty
        most_recent_example)
  have neq: "status example_deploy \<noteq> js ''live''" "status example_deploy \<noteq> js ''build_failed''"
    by (simp_all add: example_deploy_def js_def)
  have sha: "sha deactivated_env = js ''5ha''"
    by (simp add: deactivated_env_def example_env_def)
  have it: "iteration_status deactivated_env example_identity example_deploy Error (js ''deactivated'') =
          \<lparr>cs_sha = js ''5ha'', cs_state = Error,
           cs_target_url = js ''https://dashboard.render.com/web/srv-ci9bopliuie2p3pd7a3g'',
           cs_description = None,
           cs_context = status_context example_identity example_deploy\<rparr>"
    using neq js_neq by (simp add: iteration_status_def sha) (simp add: example_identity_def)
  have it': "iteration_deployment_status example_identity example_deploy 42 Inactive =
          \<lparr>ds_deployment_id = 42, ds_state = Inactive,
           ds_log_url = Some (js ''https://dashboard.render.com/web/srv-ci9bopliuie2p3pd7a3g''),
           ds_environment_url = None, ds_description = None\<rparr>"
    using neq by (simp add: iteration_deployment_status_def) (simp add: example_identity_def)
  show ?thesis
    using deactivated_ends_quietly
      [of deactivated_env 0 ?tr 701 example_identity example_deploy ?tr' "()" 42]
    by (simp add: deactivated_env_fields run_commit_status_def run_deployment_def body body' it it'
        catch_def)
qed

text \<open>
  C3, as amended. Let the provider answer with states in progress to the first \<open>n\<close> requests
  and then with \<^verbatim>\<open>live\<close> or \<^verbatim>\<open>build_failed\<close> (for the sequence pending, pending, live:
  \<open>n = 2\<close>), within the budget. The commit-status variant then writes exactly one record with
  the state \<open>Pending\<close> in each of the \<open>n\<close> intermediate iterations and one record with the
  outcome in the iteration that finds it, followed by exactly one confirming record with the
  description \<^verbatim>\<open>Deploy succeeded\<close> or \<^verbatim>\<open>Deploy failed\<close>, sets the output named after the
  outcome to that name, and returns without a further request. The deployment variant does the
  same without the confirming record.
\<close>

theorem terminal_confirmation:
  assumes st: "map_status Pending s = st" "st = Success \<or> st = Failure"
    and pend: "\<forall>k<n. \<exists>s'. render_deploy e k = Inr s' \<and> map_status Pending s' = Pending"
    and fin: "render_deploy e n = Inr s"
    and fresh: "calls is_GetDeploy tr = 0" "calls is_GetDeploy tr' = 0"
  shows "((\<forall>k. \<exists>m. create_commit_status e k = Inr m) \<and> int n \<le> max_attempts e \<longrightarrow>
          loop_commit_status e i d 0 tr =
            (exit_of st,
             tr @ concat (replicate n (pending_round e i d))
                @ [GetDeploy (deploy_url i d),
                   CreateCommitStatus (iteration_status e i d st s),
                   CreateCommitStatus (confirming_status e i d st),
                   SetOutput (state_name st) (state_name st)]) \<and>
          cs_state (confirming_status e i d st) = st \<and>
          cs_description (confirming_status e i d st) =
            Some (if st = Success then js ''Deploy succeeded'' else js ''Deploy failed'')) \<and>
         ((\<forall>k. \<exists>u. create_deployment_status e k = Inr u) \<and> n \<le> 100 \<longrightarrow>
          loop_deployment e i d deployment_id 0 tr' =
            (exit_of st,
             tr' @ concat (replicate n (pending_round_deployment i d deployment_id))
                 @ [GetDeploy (deploy_url i d),
                    CreateDeploymentStatus (iteration_deployment_status i d deployment_id st),
                    SetOutput (state_name st) (state_name st)]))"
proof (intro conjI impI)
  assume a: "(\<forall>k. \<exists>m. create_commit_status e k = Inr m) \<and> int n \<le> max_attempts e"
  have p: "\<forall>k<n. \<exists>s'. render_deploy e (calls is_GetDeploy tr + k) = Inr s' \<and> map_status Pending s' = Pending"
    using pend fresh by simp
  have f: "render_deploy e (calls is_GetDeploy tr + n) = Inr s" using fin fresh by simp
  show "loop_commit_status e i d 0 tr =
            (exit_of st,
             tr @ concat (replicate n (pending_round e i d))
                @ [GetDeploy (deploy_url i d),
                   CreateCommitStatus (iteration_status e i d st s),
                   CreateCommitStatus (confirming_status e i d st),
                   SetOutput (state_name st) (state_name st)])"
    using loop_reaches_terminal [OF _ st p _ f, of 0 i d] a by simp
next
  show "cs_state (confirming_status e i d st) = st"
    using st(2) by (auto simp: confirming_status_def succeeded_status_def failed_status_def)
next
  show "cs_description (confirming_status e i d st) =
            Some (if st = Success then js ''Deploy succeeded'' else js ''Deploy failed'')"
    by (simp add: confirming_status_def succeeded_status_def failed_status_def)
next
  assume a: "(\<forall>k. \<exists>u. create_deployment_status e k = Inr u) \<and> n \<le> 100"
  have p: "\<forall>k<n. \<exists>s'. render_deploy e (calls is_GetDeploy tr' + k) = Inr s' \<and> map_status Pending s' = Pending"
    using pend fresh by simp
  have f: "render_deploy e (calls is_GetDeploy tr' + n) = Inr s" using fin fresh by simp
  show "loop_deployment e i d deployment_id 0 tr' =
            (exit_of st,
             tr' @ concat (replicate n (pending_round_deployment i d deployment_id))
                 @ [GetDeploy (deploy_url i d),
                    CreateDeploymentStatus (iteration_deployment_status i d deployment_id st),
                    SetOutput (state_name st) (state_name st)])"
    using loop_deployment_reaches_terminal [OF _ st p _ f, of 0 i d deployment_id] a by simp
qed

theorem terminal_confirmation_witness:
  "map_status Pending (js ''live'') = Success \<and>
   render_deploy example_env 0 = Inr (js ''pending'') \<and>
   render_deploy example_env 1 = Inr (js ''pending'') \<and>
   map_status Pending (js ''pending'') = Pending \<and>
   render_deploy example_env 2 = Inr (js ''live'') \<and>
   (\<forall>k. \<exists>m. create_commit_status example_env k = Inr m) \<and> int 2 \<le> max_attempts example_env \<and>
   (\<forall>k. \<exists>u. create_deployment_status example_env k = Inr u) \<and>
   run_commit_status example_env =
     before_loop example_env example_identity example_deploy 700
     @ pending_round example_env example_identity example_deploy
     @ pending_round example_env example_identity example_deploy
     @ [GetDeploy (deploy_url example_identity example_deploy),
        CreateCommitStatus (iteration_status example_env example_identity example_deploy Success (js ''live'')),
        CreateCommitStatus (succeeded_status example_env example_identity example_deploy),
        SetOutput (js ''success'') (js ''success'')] \<and>
   cs_state (iteration_status example_env example_identity example_deploy Pending (js ''pending'')) = Pending \<and>
   cs_description (succeeded_status example_env example_identity example_deploy) = Some (js ''Deploy succeeded'') \<and>
   calls is_GetDeploy (run_commit_status example_env) = 3 \<and>
   run_deployment example_env =
     before_loop_deployment example_env example_identity example_deploy 42
     @ pending_round_deployment example_identity example_deploy 42
     @ pending_round_deployment example_identity example_deploy 42
     @ [GetDeploy (deploy_url example_identity example_deploy),
        CreateDeploymentStatus (iteration_deployment_status example_identity example_deploy 42 Success),
        SetOutput (js ''success'') (js ''success'')]"
proof -
  have ok: "\<forall>k. \<exists>m. create_commit_status example_env k = Inr m"
    and ok': "\<forall>k. \<exists>u. create_deployment_status example_env k = Inr u"
    by (simp_all add: env_fields)
  note two = concat_replicate_2
  note t = terminal_confirmation [OF map_status_live _ example_env_pend example_env_polls(3),
      of "before_loop example_env example_identity example_deploy 700"
         "before_loop_deployment example_env example_identity example_deploy 42"
         example_identity example_deploy 42]
  have run: "run_commit_status example_env =
     before_loop example_env example_identity example_deploy 700
     @ pending_round example_env example_identity example_deploy
     @ pending_round example_env example_identity example_deploy
     @ [GetDeploy (deploy_url example_identity example_deploy),
        CreateCommitStatus (iteration_status example_env example_identity example_deploy Success (js ''live'')),
        CreateCommitStatus (succeeded_status example_env example_identity example_deploy),
        SetOutput (js ''success'') (js ''success'')]"
    using t ok
    by (simp add: run_commit_status_def example_bodies env_fields two catch_def exit_of_def
        confirming_status_def)
  have run': "run_deployment example_env =
     before_loop_deployment example_env example_identity example_deploy 42
     @ pending_round_deployment example_identity example_deploy 42
     @ pending_round_deployment example_identity example_deploy 42
     @ [GetDeploy (deploy_url example_identity example_deploy),
        CreateDeploymentStatus (iteration_deployment_status example_identity example_deploy 42 Success),
        SetOutput (js ''success'') (js ''success'')]"
    using t ok'
    by (simp add: run_deployment_def example_bodies env_fields two catch_def exit_of_def)
  have cnt: "calls is_GetDeploy (run_commit_status example_env) = 3"
    unfolding run by simp
  show ?thesis
    using run run' cnt ok ok' example_env_polls map_status_pending map_status_live
    by (simp add: env_fields iteration_status_def succeeded_status_def)
qed

text \<open>
  The claim as first stated speaks of every terminal state and of every variant. For the
  answer \<^verbatim>\<open>deactivated\<close> the commit-status variant reaches the terminal state \<open>Error\<close> and ends
  after the record of the iteration, with no confirming record and no output; and the
  deployment variant writes no confirming record after \<^verbatim>\<open>live\<close> either.
\<close>

theorem terminal_confirmation_counterexample:
  "render_deploy deactivated_env 0 = Inr (js ''deactivated'') \<and>
   map_status Pending (js ''deactivated'') = Error \<and>
   run_commit_status deactivated_env =
     before_loop deactivated_env example_identity example_deploy 700
     @ [GetDeploy (deploy_url example_identity example_deploy),
        CreateCommitStatus
          (iteration_status deactivated_env example_identity example_deploy Error (js ''deactivated''))] \<and>
   render_deploy live_env 0 = Inr (js ''live'') \<and>
   run_deployment live_env =
     before_loop_deployment live_env example_identity example_deploy 42
     @ [GetDeploy (deploy_url example_identity example_deploy),
        CreateDeploymentStatus (iteration_deployment_status example_identity example_deploy 42 Success),
        SetOutput (js ''success'') (js ''success'')]"
  using run_deactivated run_deployment_live
  by (simp add: deactivated_env_fields live_env_fields map_status_deactivated)

section \<open>The URL of a record\<close>

text \<open>
  C1. The claim: the record of an iteration carries the server URL exactly when the outcome is
  \<open>Success\<close>, and for the answer \<^verbatim>\<open>live\<close> the last record written carries the server URL.
  The code at the invocation \<open>live_env\<close>, where the deploy was in progress when listed and the
  provider answers \<^verbatim>\<open>live\<close>: the record of the iteration has the state \<open>Success\<close> and the
  dashboard URL, because the choice of the URL tests the status the deploy had in the listing
  and not the status just fetched; the confirming record carries the dashboard URL as well;
  and the last record of the deployment variant has no environment URL.
\<close>

theorem live_record_points_to_dashboard:
  "status example_deploy = js ''build_in_progress'' \<and>
   render_deploy live_env 0 = Inr (js ''live'') \<and>
   serverUrl example_identity = js ''https://api-pr-324-ovto.onrender.com'' \<and>
   run_commit_status live_env =
     before_loop live_env example_identity example_deploy 700
     @ [GetDeploy (deploy_url example_identity example_deploy),
        CreateCommitStatus
          \<lparr>cs_sha = js ''5ha'', cs_state = Success,
           cs_target_url = js ''https://dashboard.render.com/web/srv-ci9bopliuie2p3pd7a3g'',
           cs_description = None,
           cs_context = status_context example_identity example_deploy\<rparr>,
        CreateCommitStatus
          \<lparr>cs_sha = js ''5ha'', cs_state = Success,
           cs_target_url = js ''https://dashboard.render.com/web/srv-ci9bopliuie2p3pd7a3g'',
           cs_description = Some (js ''Deploy succeeded''),
           cs_context = status_context example_identity example_deploy\<rparr>,
        SetOutput (js ''success'') (js ''success'')] \<and>
   run_deployment live_env =
     before_loop_deployment live_env example_identity example_deploy 42
     @ [GetDeploy (deploy_url example_identity example_deploy),
        CreateDeploymentStatus
          \<lparr>ds_deployment_id = 42, ds_state = Success,
           ds_log_url = Some (js ''https://dashboard.render.com/web/srv-ci9bopliuie2p3pd7a3g''),
           ds_environment_url = None, ds_description = None\<rparr>,
        SetOutput (js ''success'') (js ''success'')]"
proof -
  have neq: "status example_deploy \<noteq> js ''live''" "status example_deploy \<noteq> js ''build_failed''"
    by (simp_all add: example_deploy_def js_def)
  have sha: "sha live_env = js ''5ha''"
    by (simp add: live_env_def example_env_def)
  have urls: "dashboardUrl example_identity = js ''https://dashboard.render.com/web/srv-ci9bopliuie2p3pd7a3g''"
    "serverUrl example_identity = js ''https://api-pr-324-ovto.onrender.com''"
    by (simp_all add: example_identity_def)
  have it: "iteration_status live_env example_identity example_deploy Success (js ''live'') =
          \<lparr>cs_sha = js ''5ha'', cs_state = Success,
           cs_target_url = js ''https://dashboard.render.com/web/srv-ci9bopliuie2p3pd7a3g'',
           cs_description = None,
           cs_context = status_context example_identity example_deploy\<rparr>"
    using neq js_neq by (simp add: iteration_status_def sha urls)
  have su: "succeeded_status live_env example_identity example_deploy =
          \<lparr>cs_sha = js ''5ha'', cs_state = Success,
           cs_target_url = js ''https://dashboard.render.com/web/srv-ci9bopliuie2p3pd7a3g'',
           cs_description = Some (js ''Deploy succeeded''),
           cs_context = status_context example_identity example_deploy\<rparr>"
    by (simp add: succeeded_status_def sha urls)
  have it': "iteration_deployment_status example_identity example_deploy 42 Success =
          \<lparr>ds_deployment_id = 42, ds_state = Success,
           ds_log_url = Some (js ''https://dashboard.render.com/web/srv-ci9bopliuie2p3pd7a3g''),
           ds_environment_url = None, ds_description = None\<rparr>"
    using neq by (simp add: iteration_deployment_status_def urls)
  have st: "status example_deploy = js ''build_in_progress''"
    by (simp add: example_deploy_def)
  show ?thesis
    using run_live run_deployment_live st urls(2)
    by (simp only: it su it' live_env_fields simp_thms)
qed

section \<open>The wait between two requests\<close>

text \<open>
  C2. The claim: after an iteration that leaves the state at \<open>Pending\<close>, the next request for
  the status does not start before the delay of \<open>interval\<close> milliseconds is over. The code at
  the invocation \<open>example_env\<close>, with 200 ms for each request: the call of \<^verbatim>\<open>wait\<close> is made at
  800 ms, and the next request starts at 800 ms as well, in both variants, since the call is
  not awaited.
\<close>

theorem fetch_before_wait_is_over:
  "timeline request_200 0 (run_commit_status example_env) ! 9 = (800, Wait 10000) \<and>
   timeline request_200 0 (run_commit_status example_env) ! 10 =
     (800, GetDeploy (deploy_url example_identity example_deploy)) \<and>
   \<not> waits_respected (timeline request_200 0 (run_commit_status example_env)) \<and>
   timeline request_200 0 (run_deployment example_env) ! 9 = (800, Wait 5000) \<and>
   timeline request_200 0 (run_deployment example_env) ! 10 =
     (800, GetDeploy (deploy_url example_identity example_deploy)) \<and>
   \<not> waits_respected (timeline request_200 0 (run_deployment example_env))"
  unfolding run_example run_deployment_example
  by (simp add: before_loop_def before_loop_deployment_def identity_outputs_def pending_round_def
      pending_round_deployment_def env_fields)

section \<open>Comments that are not the provider's\<close>

text \<open>
  C7. For every comment text that lacks the marker phrase, the invocation leaves through the
  skip: it does not fail, sets no output, makes no request, and the parser plays no part in the
  result. A text is a string that is not empty here: an empty body is to \<open>run\<close> a missing one
  (lemma \<open>empty_comment_is_missing\<close> below).
\<close>

theorem unrelated_comment_skipped:
  assumes "comment_body e = Some c" "c \<noteq> []" "\<not> includes_str c marker"
  shows "run_commit_status_body e = (Skipped, []) \<and> run_commit_status e = [] \<and>
         run_deployment_body e = (Skipped, []) \<and> run_deployment e = []"
  using assms
  by (simp add: run_commit_status_body_def run_commit_status_def run_deployment_body_def
      run_deployment_def catch_def)

theorem unrelated_comment_skipped_witness:
  "comment_body unrelated_env = Some (js ''Looks good to me'') \<and> js ''Looks good to me'' \<noteq> [] \<and>
   \<not> includes_str (js ''Looks good to me'') marker \<and>
   run_commit_status_body unrelated_env = (Skipped, []) \<and> run_commit_status unrelated_env = [] \<and>
   run_deployment unrelated_env = []"
proof -
  have h1: "comment_body unrelated_env = Some (js ''Looks good to me'')"
    by (simp add: unrelated_env_def)
  have h2: "js ''Looks good to me'' \<noteq> []" by (simp add: js_def)
  have h3: "\<not> includes_str (js ''Looks good to me'') marker"
    by (simp add: js_def marker_def)
  show ?thesis
    using unrelated_comment_skipped [OF h1 h2 h3] h1 h2 h3 by simp
qed

lemma empty_comment_is_missing:
  "comment_body empty_comment_env = Some [] \<and> \<not> includes_str [] marker \<and>
   run_commit_status empty_comment_env = [SetFailed (js ''No comment body found'')] \<and>
   run_deployment empty_comment_env = [SetFailed (js ''No comment body found'')]"
  using marker_not_in_empty
  by (simp add: empty_comment_env_def run_commit_status_def run_commit_status_body_def
      run_deployment_def run_deployment_body_def catch_def)

section \<open>Facts about the matcher\<close>

lemma match_Lit:
  "match_atoms (Lit c # as) s = Some r \<Longrightarrow> \<exists>x xs. s = x # xs \<and> match_atoms as xs = Some r"
  by (cases s) (auto split: if_splits)

lemma match_Dot:
  "match_atoms (Dot # as) s = Some r \<Longrightarrow> \<exists>x xs. s = x # xs \<and> match_atoms as xs = Some r"
  by (cases s) (auto split: if_splits)

lemma match_TokPlus:
  "match_atoms (TokPlus # as) s = Some r \<Longrightarrow>
   \<exists>s'. length s' < length s \<and> match_atoms as s' = Some r"
proof (induction s)
  case Nil
  then show ?case by simp
next
  case (Cons x xs)
  show ?case
  proof (cases "match_atoms (TokPlus # as) xs")
    case None
    with Cons.prems have "match_atoms as xs = Some r" by (auto split: if_splits)
    then show ?thesis by auto
  next
    case (Some r')
    with Cons.prems have "r' = r" by (auto split: if_splits)
    with Some Cons.IH obtain s' where "length s' < length xs" "match_atoms as s' = Some r"
      by auto
    then show ?thesis by (intro exI [of _ s']) simp
  qed
qed

lemma match_Mark:
  "match_atoms (Mark # as) s = Some (ms, r) \<Longrightarrow>
   \<exists>ms'. ms = s # ms' \<and> match_atoms as s = Some (ms', r)"
  by (auto split: option.splits)

lemma match_skip:
  "Mark \<notin> set pre \<Longrightarrow> match_atoms (pre @ as) s = Some r \<Longrightarrow>
   \<exists>s'. length s' + length pre \<le> length s \<and> match_atoms as s' = Some r"
proof (induction pre arbitrary: s)
  case Nil
  then show ?case by auto
next
  case (Cons a pre)
  have nm: "Mark \<notin> set pre" using Cons.prems(1) by simp
  have "\<exists>t. length t < length s \<and> match_atoms (pre @ as) t = Some r"
  proof (cases a)
    case (Lit c)
    with Cons.prems(2) match_Lit [of c "pre @ as" s r] show ?thesis by auto
  next
    case Dot
    with Cons.prems(2) match_Dot [of "pre @ as" s r] show ?thesis by auto
  next
    case TokPlus
    with Cons.prems(2) match_TokPlus [of "pre @ as" s r] show ?thesis by auto
  next
    case Mark
    with Cons.prems(1) show ?thesis by simp
  qed
  then obtain t where t: "length t < length s" "match_atoms (pre @ as) t = Some r" by blast
  from Cons.IH [OF nm t(2)] obtain s' where
    "length s' + length pre \<le> length t" "match_atoms as s' = Some r" by blast
  with t(1) show ?case by (intro exI [of _ s']) simp
qed

lemma lits_no_Mark [simp]: "Mark \<notin> set (lits cs)"
  by (auto simp: lits_def)

lemma search_match: "search p c = Some r \<Longrightarrow> \<exists>s. match_atoms p s = Some r"
  by (induction c) (auto split: option.splits)

lemma group_nonempty:
  "length m2 < length m1 \<Longrightarrow> between m1 m2 \<noteq> []"
  by (cases m1) (auto simp: between_def)

lemma server_groups:
  assumes "search server_pattern c = Some (ms, r)"
  shows "\<exists>m1 m2. ms = [m1, m2] \<and> length m2 < length m1"
proof -
  obtain s where s: "match_atoms server_pattern s = Some (ms, r)"
    using search_match [OF assms] by blast
  let ?mid = "lits ''https://api-pr-'' @ [TokPlus, Dot] @ lits ''onrender'' @ [Dot] @ lits ''com''"
  have sp: "server_pattern = lits ''PR Server URL is '' @ (Mark # ?mid @ [Mark])"
    by (simp add: server_pattern_def)
  from s obtain s1 where s1: "match_atoms (Mark # ?mid @ [Mark]) s1 = Some (ms, r)"
    unfolding sp using match_skip [of "lits ''PR Server URL is ''"] by (metis lits_no_Mark)
  from match_Mark [OF s1] obtain ms' where
    ms: "ms = s1 # ms'" and m: "match_atoms (?mid @ [Mark]) s1 = Some (ms', r)" by blast
  have nm: "Mark \<notin> set ?mid" by simp
  from match_skip [OF nm m] obtain s2 where
    s2: "length s2 + length ?mid \<le> length s1" "match_atoms [Mark] s2 = Some (ms', r)" by blast
  from s2(2) have "ms' = [s2]" by auto
  moreover have "length s2 < length s1" using s2(1) by simp
  ultimately show ?thesis using ms by simp
qed

lemma dashboard_groups:
  assumes "search dashboard_pattern c = Some (ms, r)"
  shows "\<exists>m1 m2 m3 m4. ms = [m1, m2, m3, m4] \<and> length m2 < length m1 \<and> length m4 < length m3"
proof -
  obtain s where s: "match_atoms dashboard_pattern s = Some (ms, r)"
    using search_match [OF assms] by blast
  let ?pre = "lits ''https://dashboard'' @ [Dot] @ lits ''render'' @ [Dot] @ lits ''com/''"
  let ?rest = "Mark # [TokPlus] @ (Mark # lits ''/'' @ (Mark # [TokPlus] @ [Mark]))"
  have dp: "dashboard_pattern = ?pre @ ?rest"
    by (simp add: dashboard_pattern_def)
  have nm: "Mark \<notin> set ?pre" by simp
  from s obtain s1 where s1: "match_atoms ?rest s1 = Some (ms, r)"
    unfolding dp using match_skip [OF nm] by blast
  from match_Mark [OF s1] obtain ms1 where
    ms: "ms = s1 # ms1"
    and m1: "match_atoms ([TokPlus] @ (Mark # lits ''/'' @ (Mark # [TokPlus] @ [Mark]))) s1 = Some (ms1, r)"
    by blast
  from match_skip [OF _ m1] obtain s2 where
    s2: "length s2 + length [TokPlus] \<le> length s1"
      "match_atoms (Mark # lits ''/'' @ (Mark # [TokPlus] @ [Mark])) s2 = Some (ms1, r)"
    by auto
  from match_Mark [OF s2(2)] obtain ms2 where
    ms1: "ms1 = s2 # ms2"
    and m2: "match_atoms (lits ''/'' @ (Mark # [TokPlus] @ [Mark])) s2 = Some (ms2, r)"
    by blast
  from match_skip [OF _ m2] obtain s3 where
    s3: "match_atoms (Mark # [TokPlus] @ [Mark]) s3 = Some (ms2, r)"
    by (metis lits_no_Mark)
  from match_Mark [OF s3] obtain ms3 where
    ms2: "ms2 = s3 # ms3" and m3: "match_atoms ([TokPlus] @ [Mark]) s3 = Some (ms3, r)"
    by blast
  from match_skip [OF _ m3] obtain s4 where
    s4: "length s4 + length [TokPlus] \<le> length s3" "match_atoms [Mark] s4 = Some (ms3, r)"
    by auto
  from s4(2) have "ms3 = [s4]" by auto
  moreover have "length s2 < length s1" using s2(1) by simp
  moreover have "length s4 < length s3" using s4(1) by simp
  ultimately show ?thesis using ms ms1 ms2 by simp
qed

lemma parse_cases:
  "parseCommentBody c =
     (if search server_pattern c = None then Inl (Err (js ''No server URL found''))
      else if search dashboard_pattern c = None then Inl (Err (js ''No service name found''))
      else Inr \<lparr>serverUrl = the (group_of (search server_pattern c) 0),
                serviceName = the (group_of (search dashboard_pattern c) 0),
                serviceId = the (group_of (search dashboard_pattern c) 1),
                dashboardUrl = js ''https://dashboard.render.com/''
                  @ the (group_of (search dashboard_pattern c) 0) @ js ''/''
                  @ the (group_of (search dashboard_pattern c) 1)\<rparr>)"
proof (cases "search server_pattern c")
  case None
  then show ?thesis by (simp add: parseCommentBody_def group_of_def)
next
  case (Some sr)
  obtain ms r where sr: "sr = (ms, r)" by (cases sr)
  from server_groups [of c ms r] Some sr obtain m1 m2 where
    ms: "ms = [m1, m2]" "length m2 < length m1" by auto
  have g0: "group_of (search server_pattern c) 0 = Some (between m1 m2)"
    using Some sr ms by (simp add: group_of_def)
  have ne0: "between m1 m2 \<noteq> []" using ms(2) by (rule group_nonempty)
  show ?thesis
  proof (cases "search dashboard_pattern c")
    case None
    then show ?thesis using Some g0 ne0 by (simp add: parseCommentBody_def group_of_def)
  next
    case (Some dr)
    obtain ds r' where dr: "dr = (ds, r')" by (cases dr)
    from dashboard_groups [of c ds r'] Some dr obtain n1 n2 n3 n4 where
      ds: "ds = [n1, n2, n3, n4]" "length n2 < length n1" "length n4 < length n3" by auto
    have g1: "group_of (search dashboard_pattern c) 0 = Some (between n1 n2)"
      "group_of (search dashboard_pattern c) 1 = Some (between n3 n4)"
      using Some dr ds by (simp_all add: group_of_def)
    have ne: "between n1 n2 \<noteq> []" "between n3 n4 \<noteq> []"
      using ds(2,3) by (simp_all add: group_nonempty)
    show ?thesis
      using \<open>search server_pattern c = Some sr\<close> Some g0 ne0 g1 ne
      by (simp add: parseCommentBody_def)
  qed
qed

lemma error_messages_differ:
  "js ''No server URL found'' \<noteq> js ''No service ID found''"
  "js ''No service name found'' \<noteq> js ''No service ID found''"
  by (simp_all add: js_def)

lemma search_server_without_id: "search server_pattern comment_without_id \<noteq> None"
  by (simp add: comment_without_id_def regex_defs)

lemma search_dashboard_without_id: "search dashboard_pattern comment_without_id = None"
  by (simp add: comment_without_id_def regex_defs)

lemma includes_without_id:
  "includes_str comment_without_id marker"
  "includes_str comment_without_id (js ''https://dashboard.render.com/web/'')"
  by (simp_all add: comment_without_id_def marker_def js_def)

section \<open>The failures of the parser\<close>

text \<open>
  What the parser returns, by the pattern that has no match, and what an invocation does when
  the parser fails on a comment that carries the marker phrase: it sets no output and makes no
  request, and signals the failure with the parser's message.
\<close>

lemma parse_outcomes:
  "(search server_pattern c = None \<longrightarrow>
      parseCommentBody c = Inl (Err (js ''No server URL found''))) \<and>
   (search server_pattern c \<noteq> None \<and> search dashboard_pattern c = None \<longrightarrow>
      parseCommentBody c = Inl (Err (js ''No service name found''))) \<and>
   (search server_pattern c \<noteq> None \<and> search dashboard_pattern c \<noteq> None \<longrightarrow>
      (\<exists>i. parseCommentBody c = Inr i)) \<and>
   (comment_body e = Some c \<and> includes_str c marker \<and> parseCommentBody c = Inl (Err m) \<longrightarrow>
      run_commit_status e = [SetFailed m] \<and> run_deployment e = [SetFailed m])"
proof (intro conjI impI)
  assume a: "comment_body e = Some c \<and> includes_str c marker \<and> parseCommentBody c = Inl (Err m)"
  then have "c \<noteq> []" using marker_not_in_empty by auto
  with a show "run_commit_status e = [SetFailed m]"
    by (simp add: run_commit_status_def run_commit_status_body_def catch_def)
  from a \<open>c \<noteq> []\<close> show "run_deployment e = [SetFailed m]"
    by (simp add: run_deployment_def run_deployment_body_def catch_def)
qed (auto simp: parse_cases)

text \<open>
  C8. The claim: a comment that carries the marker phrase and whose URLs are malformed makes
  the parser fail with the message of the field that is missing, a message of its own for the
  server URL, for the service name and for the service id, and no identity is produced. The
  code at \<open>comment_without_id\<close>, where the marker phrase, a server URL that matches and the
  service name \<^verbatim>\<open>web\<close> are present and only the service id is missing: the parser fails, and
  so does the invocation in both variants, with \<^verbatim>\<open>No service name found\<close> and not with
  \<^verbatim>\<open>No service ID found\<close>. The source has a check that throws the latter, but the name and
  the id are read off two matches of the same pattern, so the check for the name has already
  thrown whenever the id is missing.
\<close>

theorem missing_id_reports_missing_name:
  "includes_str comment_without_id marker \<and>
   includes_str comment_without_id (js ''https://dashboard.render.com/web/'') \<and>
   search server_pattern comment_without_id \<noteq> None \<and>
   search dashboard_pattern comment_without_id = None \<and>
   parseCommentBody comment_without_id = Inl (Err (js ''No service name found'')) \<and>
   parseCommentBody comment_without_id \<noteq> Inl (Err (js ''No service ID found'')) \<and>
   comment_body without_id_env = Some comment_without_id \<and>
   run_commit_status without_id_env = [SetFailed (js ''No service name found'')] \<and>
   run_deployment without_id_env = [SetFailed (js ''No service name found'')]"
proof -
  have b: "comment_body without_id_env = Some comment_without_id"
    by (simp add: without_id_env_def)
  have p: "parseCommentBody comment_without_id = Inl (Err (js ''No service name found''))"
    using search_server_without_id search_dashboard_without_id by (auto simp: parse_cases)
  have q: "parseCommentBody comment_without_id \<noteq> Inl (Err (js ''No service ID found''))"
    unfolding p using error_messages_differ by simp
  have r: "run_commit_status without_id_env = [SetFailed (js ''No service name found'')]"
      "run_deployment without_id_env = [SetFailed (js ''No service name found'')]"
    using parse_outcomes [of comment_without_id without_id_env "js ''No service name found''"]
      b includes_without_id(1) p
    by simp_all
  show ?thesis
    using includes_without_id search_server_without_id search_dashboard_without_id b p q r
    by (simp only: simp_thms)
qed

section \<open>The parser as a function of the text\<close>

lemma loop_extends:
  "\<exists>evs. snd (loop_commit_status e i d attempts tr) = tr @ evs"
proof (induction "nat (max_attempts e + 1 - int attempts)" arbitrary: attempts tr)
  case 0
  then have "max_attempts e < int attempts" by simp
  then show ?case
    by (subst loop_commit_status.simps)
       (auto simp: createCommitStatus_def split: sum.splits)
next
  case (Suc m)
  then have le: "\<not> max_attempts e < int attempts" by simp
  show ?case
  proof (cases "\<exists>s n. render_deploy e (calls is_GetDeploy tr) = Inr s \<and>
                  map_status Pending s = Pending \<and>
                  create_commit_status e (calls is_CreateCommitStatus tr) = Inr n")
    case True
    then obtain s n where s: "render_deploy e (calls is_GetDeploy tr) = Inr s"
        "map_status Pending s = Pending"
        "create_commit_status e (calls is_CreateCommitStatus tr) = Inr n"
      by blast
    have m: "m = nat (max_attempts e + 1 - int (attempts + 1))" using Suc(2) by simp
    from Suc(1) [OF m, of "tr @ pending_round e i d"] obtain evs where
      "snd (loop_commit_status e i d (attempts + 1) (tr @ pending_round e i d)) =
         (tr @ pending_round e i d) @ evs"
      by blast
    then show ?thesis
      unfolding loop_pending [OF le s] by (intro exI [of _ "pending_round e i d @ evs"]) simp
  next
    case False
    then show ?thesis
      using le
      by (subst loop_commit_status.simps)
         (auto simp: createCommitStatus_def render_get_deploy_def split: sum.splits)
  qed
qed

lemma loop_deployment_extends:
  "\<exists>evs. snd (loop_deployment e i d deployment_id attempts tr) = tr @ evs"
proof (induction "101 - attempts" arbitrary: attempts tr)
  case 0
  then have "attempts > 100" by simp
  then show ?case
    by (subst loop_deployment.simps)
       (auto simp: createDeploymentStatus_def split: sum.splits)
next
  case (Suc m)
  then have le: "attempts \<le> 100" by simp
  show ?case
  proof (cases "\<exists>s u. render_deploy e (calls is_GetDeploy tr) = Inr s \<and>
                  map_status Pending s = Pending \<and>
                  create_deployment_status e (calls is_CreateDeploymentStatus tr) = Inr u")
    case True
    then obtain s u where s: "render_deploy e (calls is_GetDeploy tr) = Inr s"
        "map_status Pending s = Pending"
        "create_deployment_status e (calls is_CreateDeploymentStatus tr) = Inr u"
      by blast
    let ?tr = "tr @ pending_round_deployment i d deployment_id"
    have m: "m = 101 - (attempts + 1)" using Suc(2) by simp
    from Suc(1) [OF m, of ?tr] obtain evs where
      "snd (loop_deployment e i d deployment_id (attempts + 1) ?tr) = ?tr @ evs"
      by blast
    then show ?thesis
      unfolding loop_deployment_pending [OF le s]
      by (intro exI [of _ "pending_round_deployment i d deployment_id @ evs"]) simp
  next
    case False
    then show ?thesis
      using le
      by (subst loop_deployment.simps)
         (auto simp: createDeploymentStatus_def render_get_deploy_def
            map_status_deployment_Pending_iff split: sum.splits)
  qed
qed

lemma catch_extends: "\<exists>evs. catch (x, tr) = tr @ evs"
  by (cases x) (auto simp: catch_def split: error.splits)

lemma run_starts_with_identity:
  assumes "comment_body e = Some c" "includes_str c marker" "parseCommentBody c = Inr i"
  shows "\<exists>evs. run_commit_status e = identity_outputs i @ evs"
proof -
  have ne: "c \<noteq> []" using assms(2) marker_not_in_empty by auto
  have "\<exists>evs. snd (run_commit_status_body e) = identity_outputs i @ evs"
  proof (cases "render_deploys e")
    case (Inl err)
    then show ?thesis using assms ne by (simp add: run_commit_status_body_def)
  next
    case (Inr data)
    show ?thesis
    proof (cases "data = []")
      case True
      then show ?thesis using assms ne Inr by (simp add: run_commit_status_body_def)
    next
      case False
      show ?thesis
      proof (cases "create_commit_status e 0")
        case (Inl err)
        then show ?thesis
          using assms ne Inr False
          by (simp add: run_commit_status_body_def createCommitStatus_def identity_outputs_def)
      next
        case (Inr n)
        from loop_extends [of e i "most_recent data" 0 "before_loop e i (most_recent data) n"]
        obtain evs where "snd (loop_commit_status e i (most_recent data) 0
            (before_loop e i (most_recent data) n)) = before_loop e i (most_recent data) n @ evs"
          by blast
        then show ?thesis
          using run_enters_loop [OF assms \<open>render_deploys e = Inr data\<close> False Inr]
          by (simp add: before_loop_def)
      qed
    qed
  qed
  then obtain evs where evs: "snd (run_commit_status_body e) = identity_outputs i @ evs" by blast
  obtain x where x: "run_commit_status_body e = (x, identity_outputs i @ evs)"
    using evs by (cases "run_commit_status_body e") auto
  from catch_extends [of x "identity_outputs i @ evs"] show ?thesis
    unfolding run_commit_status_def x by auto
qed

lemma run_deployment_starts_with_identity:
  assumes "comment_body e = Some c" "includes_str c marker" "parseCommentBody c = Inr i"
  shows "\<exists>evs. run_deployment e = identity_outputs i @ evs"
proof -
  have ne: "c \<noteq> []" using assms(2) marker_not_in_empty by auto
  have "\<exists>evs. snd (run_deployment_body e) = identity_outputs i @ evs"
  proof (cases "render_deploys e")
    case (Inl err)
    then show ?thesis using assms ne by (simp add: run_deployment_body_def)
  next
    case (Inr data)
    show ?thesis
    proof (cases "data = []")
      case True
      then show ?thesis using assms ne Inr by (simp add: run_deployment_body_def)
    next
      case False
      show ?thesis
      proof (cases "create_deployment e")
        case (Inl err)
        then show ?thesis
          using assms ne Inr False
          by (simp add: run_deployment_body_def identity_outputs_def)
      next
        case r: (Inr n)
        show ?thesis
        proof (cases n)
          case None
          then show ?thesis
            using assms ne Inr False r
            by (simp add: run_deployment_body_def identity_outputs_def)
        next
          case (Some k)
          from loop_deployment_extends
            [of e i "most_recent data" k 0 "before_loop_deployment e i (most_recent data) k"]
          obtain evs where "snd (loop_deployment e i (most_recent data) k 0
            (before_loop_deployment e i (most_recent data) k)) =
              before_loop_deployment e i (most_recent data) k @ evs"
            by blast
          then show ?thesis
            using run_deployment_enters_loop [OF assms \<open>render_deploys e = Inr data\<close> False]
              r Some
            by (simp add: before_loop_deployment_def)
        qed
      qed
    qed
  qed
  then obtain evs where evs: "snd (run_deployment_body e) = identity_outputs i @ evs" by blast
  obtain x where x: "run_deployment_body e = (x, identity_outputs i @ evs)"
    using evs by (cases "run_deployment_body e") auto
  from catch_extends [of x "identity_outputs i @ evs"] show ?thesis
    unfolding run_deployment_def x by auto
qed

text \<open>
  C9. The parser is a function of the comment text alone. Two invocations on the same
  well-formed comment, in whatever else they differ (inputs, answers of the provider and of
  the platform), publish the same identity: each begins with the same four outputs, which
  are the fields of the one value the parser returns for that text, and nothing is done before
  them. The dashboard URL among them is composed from the captured name and id.
\<close>

theorem parse_determines_identity:
  assumes "comment_body e1 = Some c" "comment_body e2 = Some c"
    and "includes_str c marker" "parseCommentBody c = Inr i"
  shows "take 4 (run_commit_status e1) = identity_outputs i \<and>
         take 4 (run_commit_status e2) = identity_outputs i \<and>
         take 4 (run_deployment e1) = identity_outputs i \<and>
         take 4 (run_deployment e2) = identity_outputs i \<and>
         dashboardUrl i = js ''https://dashboard.render.com/'' @ serviceName i @ js ''/'' @ serviceId i"
proof -
  have len: "length (identity_outputs i) = 4" by (simp add: identity_outputs_def)
  have d: "dashboardUrl i = js ''https://dashboard.render.com/'' @ serviceName i @ js ''/'' @ serviceId i"
    using assms(4) by (auto simp: parse_cases split: if_splits)
  show ?thesis
    using run_starts_with_identity [OF assms(1,3,4)] run_starts_with_identity [OF assms(2,3,4)]
      run_deployment_starts_with_identity [OF assms(1,3,4)]
      run_deployment_starts_with_identity [OF assms(2,3,4)] len d
    by auto
qed

theorem parse_determines_identity_witness:
  "comment_body example_env = Some example_comment \<and>
   comment_body stuck_env = Some example_comment \<and>
   includes_str example_comment marker \<and>
   parseCommentBody example_comment = Inr example_identity \<and>
   take 4 (run_commit_status example_env) = identity_outputs example_identity \<and>
   take 4 (run_commit_status stuck_env) = identity_outputs example_identity \<and>
   take 4 (run_deployment stuck_env) = identity_outputs example_identity"
proof -
  have h1: "comment_body example_env = Some example_comment" by (simp add: env_fields)
  have h2: "comment_body stuck_env = Some example_comment"
    by (simp add: stuck_env_def example_env_def)
  show ?thesis
    using parse_determines_identity [OF h1 h2 includes_example parse_example]
      h1 h2 includes_example parse_example
    by simp
qed

end
